theory Spec2Isabelle
  imports Main
begin

section \<open>Data model\<close>

text \<open>
  A Python exception, as far as the pipeline looks at it: its class and the text that
  \<^verbatim>\<open>str(e)\<close> returns. The exceptions are those of classes derived from \<^verbatim>\<open>Exception\<close>,
  which every \<^verbatim>\<open>except Exception\<close> clause of the sources catches; \<^verbatim>\<open>KeyboardInterrupt\<close>,
  \<^verbatim>\<open>SystemExit\<close> and \<^verbatim>\<open>GeneratorExit\<close>, which pass through these clauses, are outside
  of the embedding.
\<close>

datatype error = Error (err_class: string) (message: string)

text \<open>
  A Python \<^verbatim>\<open>dict\<close> with string keys keeps its keys in insertion order, and the pipeline
  turns the keys into lists, so a dict is an association list with distinct keys.
  \<open>dict_set\<close> is \<^verbatim>\<open>d[k] = v\<close>, \<open>dict_update\<close> is \<^verbatim>\<open>d.update(other)\<close>.
\<close>

type_synonym 'a dict = "(string \<times> 'a) list"

fun dict_set :: "'a dict \<Rightarrow> string \<Rightarrow> 'a \<Rightarrow> 'a dict" where
  "dict_set [] k v = [(k, v)]"
| "dict_set ((k', v') # d) k v = (if k' = k then (k, v) # d else (k', v') # dict_set d k v)"

definition dict_update :: "'a dict \<Rightarrow> 'a dict \<Rightarrow> 'a dict" where
  "dict_update d other = fold (\<lambda>(k, v) acc. dict_set acc k v) other d"

definition dict_keys :: "'a dict \<Rightarrow> string list" where
  "dict_keys d = map fst d"

definition dict_values :: "'a dict \<Rightarrow> 'a list" where
  "dict_values d = map snd d"

text \<open>
  A pandas DataFrame: its column labels and its rows of cells. \<^verbatim>\<open>len(df)\<close> is the number
  of rows; \<^verbatim>\<open>df.empty\<close> holds when either axis has length zero.
\<close>

record dataframe =
  columns :: "string list"
  rows :: "string list list"

definition df_len :: "dataframe \<Rightarrow> int" where
  "df_len df = int (length (rows df))"

definition df_empty :: "dataframe \<Rightarrow> bool" where
  "df_empty df = (columns df = [] \<or> rows df = [])"

text \<open>\<^verbatim>\<open>sum(len(df) for df in data.values())\<close>\<close>

definition total_len :: "dataframe dict \<Rightarrow> int" where
  "total_len data = sum_list (map df_len (dict_values data))"

section \<open>The file system that extraction sees\<close>

text \<open>
  A data directory holds named entries; an entry is what \<^verbatim>\<open>pd.read_csv\<close> makes of it, a
  DataFrame or the exception it raises (an empty or malformed file, a sub-directory, a
  file that may not be read). At a path there is a directory, something that is not a
  directory, or nothing. \<open>mkdir_fault\<close> is the operating system's refusal, if any, to
  create a missing directory. \<open>stat_fault\<close> is the operating system's refusal, if any, to
  tell whether a file is there: an error of \<^verbatim>\<open>stat\<close> other than the four that
  \<^verbatim>\<open>Path.exists\<close> answers with False (ENOENT, ENOTDIR, EBADF, ELOOP), such as the
  PermissionError of a directory that may not be searched or the OSError of a name that is
  too long.
\<close>

type_synonym entry = "error + dataframe"

datatype node = Directory "string \<rightharpoonup> entry" | NotADirectory

record filesystem =
  nodes :: "string \<rightharpoonup> node"
  mkdir_fault :: "string \<Rightarrow> error option"
  stat_fault :: "string \<Rightarrow> string \<Rightarrow> error option"

text \<open>
  \<^verbatim>\<open>repr\<close> of a string of printable characters without quote or backslash, and
  \<^verbatim>\<open>str(Path(p) / filename)\<close> for a path \<open>p\<close> in normal form.
\<close>

definition repr_str :: "string \<Rightarrow> string" where
  "repr_str s = CHR 0x27 # s @ [CHR 0x27]"

definition path_join :: "string \<Rightarrow> string \<Rightarrow> string" where
  "path_join p filename = p @ ''/'' @ filename"

text \<open>
  \<^verbatim>\<open>Path(p).mkdir(parents=True, exist_ok=True)\<close>: an existing directory is accepted, so
  is a missing one that can be created; anything else at the path is
  \<^verbatim>\<open>FileExistsError\<close>.
\<close>

definition Path_mkdir :: "string \<Rightarrow> filesystem \<Rightarrow> (error + unit) \<times> filesystem" where
  "Path_mkdir p f =
     (case nodes f p of
        Some (Directory _) \<Rightarrow> (Inr (), f)
      | Some NotADirectory \<Rightarrow>
          (Inl (Error ''FileExistsError'' (''[Errno 17] File exists: '' @ repr_str p)), f)
      | None \<Rightarrow>
          (case mkdir_fault f p of
             Some e \<Rightarrow> (Inl e, f)
           | None \<Rightarrow> (Inr (), f\<lparr>nodes := (nodes f)(p \<mapsto> Directory Map.empty)\<rparr>)))"

text \<open>
  \<^verbatim>\<open>(Path(p) / filename).exists()\<close>: it calls \<^verbatim>\<open>stat\<close> and re-raises every
  \<^verbatim>\<open>OSError\<close> that does not mean that the file is missing.
\<close>

definition Path_exists :: "filesystem \<Rightarrow> string \<Rightarrow> string \<Rightarrow> error + bool" where
  "Path_exists f p filename =
     (case stat_fault f p filename of
        Some e \<Rightarrow> Inl e
      | None \<Rightarrow>
          (case nodes f p of
             Some (Directory entries) \<Rightarrow> Inr (entries filename \<noteq> None)
           | _ \<Rightarrow> Inr False))"

text \<open>\<^verbatim>\<open>pd.read_csv(Path(p) / filename)\<close>\<close>

definition read_csv :: "filesystem \<Rightarrow> string \<Rightarrow> string \<Rightarrow> error + dataframe" where
  "read_csv f p filename =
     (case nodes f p of
        Some (Directory entries) \<Rightarrow>
          (case entries filename of
             Some r \<Rightarrow> r
           | None \<Rightarrow>
               Inl (Error ''FileNotFoundError''
                 (''[Errno 2] No such file or directory: '' @ repr_str (path_join p filename))))
      | Some NotADirectory \<Rightarrow>
          Inl (Error ''NotADirectoryError''
            (''[Errno 20] Not a directory: '' @ repr_str (path_join p filename)))
      | None \<Rightarrow>
          Inl (Error ''FileNotFoundError''
            (''[Errno 2] No such file or directory: '' @ repr_str (path_join p filename))))"

section \<open>etl/extract.py\<close>

text \<open>
  \<^verbatim>\<open>DataExtractor.__init__\<close> stores the path and creates the directory. The extractor
  object is its \<open>data_path\<close>.
\<close>

definition DataExtractor :: "string \<Rightarrow> filesystem \<Rightarrow> (error + string) \<times> filesystem" where
  "DataExtractor data_path f =
     (case Path_mkdir data_path f of
        (Inl e, f') \<Rightarrow> (Inl e, f')
      | (Inr _, f') \<Rightarrow> (Inr data_path, f'))"

text \<open>
  \<^verbatim>\<open>DataExtractor.extract_csv\<close>: both except clauses log and re-raise, so the outcome is
  that of \<^verbatim>\<open>pd.read_csv\<close>.
\<close>

definition extract_csv :: "filesystem \<Rightarrow> string \<Rightarrow> string \<Rightarrow> error + dataframe" where
  "extract_csv f data_path filename = read_csv f data_path filename"

text \<open>
  What a caller may pass for \<^verbatim>\<open>required_columns\<close>: a list whose elements are column
  names or, by mistake, lists again. \<^verbatim>\<open>set(required_columns)\<close> hashes the elements in
  order, and a list has no hash.
\<close>

datatype pyobj = PyStr string | PyList "pyobj list"

fun py_set :: "pyobj list \<Rightarrow> error + string list" where
  "py_set [] = Inr []"
| "py_set (PyStr s # xs) = (case py_set xs of Inl e \<Rightarrow> Inl e | Inr ys \<Rightarrow> Inr (s # ys))"
| "py_set (PyList l # xs) =
     Inl (Error ''TypeError'' (''unhashable type: '' @ repr_str ''list''))"

text \<open>
  \<^verbatim>\<open>DataExtractor.validate_data\<close>. \<open>None\<close> for the DataFrame is Python's \<^verbatim>\<open>None\<close>;
  \<open>None\<close> for the columns is the omitted argument. \<^verbatim>\<open>if required_columns:\<close> is false for
  \<^verbatim>\<open>None\<close> and for the empty list. The result is the answer or the exception, together
  with the DataFrame as the call leaves it: the function reads \<^verbatim>\<open>df.empty\<close>,
  \<^verbatim>\<open>df.columns\<close> and \<^verbatim>\<open>df.shape\<close> and assigns to nothing.
\<close>

definition validate_data ::
  "dataframe option \<Rightarrow> pyobj list option \<Rightarrow> (error + bool) \<times> dataframe option"
where
  "validate_data df required_columns =
     (case df of
        None \<Rightarrow> (Inr False, df)
      | Some d \<Rightarrow>
          if df_empty d then (Inr False, df)
          else
            (case required_columns of
               None \<Rightarrow> (Inr True, df)
             | Some cs \<Rightarrow>
                 if cs \<noteq> [] then
                   (case py_set cs of
                      Inl e \<Rightarrow> (Inl e, df)
                    | Inr required \<Rightarrow>
                        if set required - set (columns d) \<noteq> {} then (Inr False, df)
                        else (Inr True, df))
                 else (Inr True, df)))"

text \<open>
  \<^verbatim>\<open>extract_sales_data\<close>: four times the same guarded read, in this order, inside one
  \<^verbatim>\<open>try\<close> block whose except clause logs and re-raises. So an existence test that
  raises, or a read that raises, ends the function with that exception.
\<close>

definition dataset_files :: "(string \<times> string) list" where
  "dataset_files =
     [(''sales'', ''sales_transactions.csv''),
      (''customers'', ''customers.csv''),
      (''products'', ''products.csv''),
      (''sales_reps'', ''sales_reps.csv'')]"

fun extract_files ::
  "filesystem \<Rightarrow> string \<Rightarrow> (string \<times> string) list \<Rightarrow> dataframe dict \<Rightarrow> error + dataframe dict"
where
  "extract_files f p [] data = Inr data"
| "extract_files f p ((k, filename) # rest) data =
     (case Path_exists f p filename of
        Inl e \<Rightarrow> Inl e
      | Inr present \<Rightarrow>
          if present then
            (case extract_csv f p filename of
               Inl e \<Rightarrow> Inl e
             | Inr df \<Rightarrow> extract_files f p rest (dict_set data k df))
          else extract_files f p rest data)"

definition extract_sales_data ::
  "string \<Rightarrow> filesystem \<Rightarrow> (error + dataframe dict) \<times> filesystem"
where
  "extract_sales_data data_path f =
     (case DataExtractor data_path f of
        (Inl e, f') \<Rightarrow> (Inl e, f')
      | (Inr p, f') \<Rightarrow> (extract_files f' p dataset_files [], f'))"

section \<open>etl/pipeline.py\<close>

subsection \<open>Statistics, audit records, collaborators\<close>

text \<open>
  The stage names and the four status strings of the source. \<^verbatim>\<open>self.stats\<close> maps each
  stage to its status, its record count and, once the stage has succeeded, the names of
  its datasets or tables.
\<close>

datatype stage = Extract | Transform | Load

datatype status = NotStarted | Started | Success | Failed

record stage_stats =
  status :: status
  records :: int
  names :: "string list option"

record pipeline_stats =
  stats_extract :: stage_stats
  stats_transform :: stage_stats
  stats_load :: stage_stats

text \<open>
  The arguments of one call of \<^verbatim>\<open>self.loader.log_etl_audit\<close>; a keyword argument that the
  call does not pass is \<open>None\<close>.
\<close>

record audit_record =
  audit_pipeline :: string
  audit_stage :: stage
  audit_status :: status
  records_processed :: "int option"
  error_message :: "string option"
  audit_start_time :: "int option"

text \<open>
  What the stages are seen to do, in order: a stage function is called, its except clause
  runs, a transformation or a loader is called (with whether it returned normally).
\<close>

datatype event =
    Entered stage
  | Raised stage error
  | Transformed string bool
  | LoadDimensionTables "string list" bool
  | LoadFactSales bool

text \<open>
  The modules \<^verbatim>\<open>etl/transform.py\<close> and \<^verbatim>\<open>etl/load.py\<close> are not part of the sources; what
  the pipeline imports from them is a parameter: the four transformations, the two
  loaders and the audit recorder, each returning a value or raising, the loaders and the
  recorder acting on a database \<open>'db\<close>. What they return is typed by what the pipeline
  does with it: a transformation returns a DataFrame (\<^verbatim>\<open>len\<close> is applied to it), the
  dimension loader a mapping of counts (it goes into \<^verbatim>\<open>load_results.update\<close> and
  \<^verbatim>\<open>sum\<close>), the fact loader a count. \<open>clock\<close> gives the successive readings of
  \<^verbatim>\<open>datetime.now()\<close>.
\<close>

record 'db environment =
  clock :: "nat \<Rightarrow> int"
  transform_sales_data :: "dataframe \<Rightarrow> error + dataframe"
  transform_customer_data :: "dataframe \<Rightarrow> error + dataframe"
  transform_product_data :: "dataframe \<Rightarrow> error + dataframe"
  transform_sales_rep_data :: "dataframe \<Rightarrow> error + dataframe"
  load_dimension_tables :: "dataframe dict \<Rightarrow> 'db \<Rightarrow> (error + int dict) \<times> 'db"
  load_fact_sales :: "dataframe \<Rightarrow> 'db \<Rightarrow> (error + int) \<times> 'db"
  log_etl_audit :: "audit_record \<Rightarrow> 'db \<Rightarrow> error option \<times> 'db"

text \<open>
  An \<^verbatim>\<open>ETLPipeline\<close> object together with the world it acts on: the file system, the
  database, the number of clock readings taken, the audit records handed to the recorder
  (\<open>audit_log\<close>, in call order) and the events of the stages (\<open>trace\<close>).
\<close>

record 'db pipeline =
  pipeline_name :: string
  start_time :: "int option"
  stats :: pipeline_stats
  fs :: filesystem
  db :: 'db
  ticks :: nat
  audit_log :: "audit_record list"
  trace :: "event list"

definition not_started :: stage_stats where
  "not_started = \<lparr>status = NotStarted, records = 0, names = None\<rparr>"

text \<open>
  \<^verbatim>\<open>ETLPipeline.__init__\<close>, for a constructor that returns: \<^verbatim>\<open>DataLoader()\<close> is not part
  of the sources, and the loader it gives is the database \<open>db\<close> that the loaders and the
  recorder act on.
\<close>

definition ETLPipeline :: "string \<Rightarrow> filesystem \<Rightarrow> 'db \<Rightarrow> 'db pipeline" where
  "ETLPipeline name f d =
     \<lparr>pipeline_name = name, start_time = None,
      stats = \<lparr>stats_extract = not_started, stats_transform = not_started,
                stats_load = not_started\<rparr>,
      fs = f, db = d, ticks = 0, audit_log = [], trace = []\<rparr>"

definition datetime_now :: "'db environment \<Rightarrow> 'db pipeline \<Rightarrow> int \<times> 'db pipeline" where
  "datetime_now env s = (clock env (ticks s), s\<lparr>ticks := Suc (ticks s)\<rparr>)"

text \<open>
  One call of the recorder: the record is appended to \<open>audit_log\<close> when the call is made;
  the recorder returns or raises as the environment says.
\<close>

definition audit ::
  "'db environment \<Rightarrow> audit_record \<Rightarrow> 'db pipeline \<Rightarrow> (error + unit) \<times> 'db pipeline"
where
  "audit env r s =
     (case log_etl_audit env r (db s) of
        (None, d) \<Rightarrow> (Inr (), s\<lparr>db := d, audit_log := audit_log s @ [r]\<rparr>)
      | (Some e, d) \<Rightarrow> (Inl e, s\<lparr>db := d, audit_log := audit_log s @ [r]\<rparr>))"

text \<open>Sequencing inside a \<^verbatim>\<open>try\<close> block: the first exception ends the block.\<close>

definition try_bind ::
  "(error + 'a) \<times> 's \<Rightarrow> ('a \<Rightarrow> 's \<Rightarrow> (error + 'b) \<times> 's) \<Rightarrow> (error + 'b) \<times> 's"
where
  "try_bind m k = (case m of (Inl e, s) \<Rightarrow> (Inl e, s) | (Inr x, s) \<Rightarrow> k x s)"

subsection \<open>The three stages\<close>

text \<open>\<^verbatim>\<open>ETLPipeline._extract\<close>\<close>

definition ETLPipeline_extract ::
  "string \<Rightarrow> 'db pipeline \<Rightarrow> (error + dataframe dict) \<times> 'db pipeline"
where
  "ETLPipeline_extract data_path s =
     (let s1 = s\<lparr>trace := trace s @ [Entered Extract]\<rparr> in
      case extract_sales_data data_path (fs s1) of
        (Inr raw_data, f) \<Rightarrow>
          (Inr raw_data,
           s1\<lparr>fs := f,
              stats := (stats s1)\<lparr>stats_extract :=
                \<lparr>status = Success, records = total_len raw_data,
                 names = Some (dict_keys raw_data)\<rparr>\<rparr>\<rparr>)
      | (Inl e, f) \<Rightarrow>
          (Inl e,
           s1\<lparr>fs := f,
              stats := (stats s1)\<lparr>stats_extract := (stats_extract (stats s1))\<lparr>status := Failed\<rparr>\<rparr>,
              trace := trace s1 @ [Raised Extract e]\<rparr>))"

text \<open>
  One \<^verbatim>\<open>if k in raw_data: transformed_data[k] = f(raw_data[k])\<close> of
  \<^verbatim>\<open>ETLPipeline._transform\<close>.
\<close>

definition transform_dataset ::
  "string \<Rightarrow> (dataframe \<Rightarrow> error + dataframe) \<Rightarrow> dataframe dict \<Rightarrow> dataframe dict \<Rightarrow>
   'db pipeline \<Rightarrow> (error + dataframe dict) \<times> 'db pipeline"
where
  "transform_dataset k f raw_data transformed_data s =
     (case map_of raw_data k of
        None \<Rightarrow> (Inr transformed_data, s)
      | Some df \<Rightarrow>
          (case f df of
             Inl e \<Rightarrow> (Inl e, s\<lparr>trace := trace s @ [Transformed k False]\<rparr>)
           | Inr df' \<Rightarrow>
               (Inr (dict_set transformed_data k df'),
                s\<lparr>trace := trace s @ [Transformed k True]\<rparr>)))"

text \<open>\<^verbatim>\<open>ETLPipeline._transform\<close>\<close>

definition ETLPipeline_transform ::
  "'db environment \<Rightarrow> dataframe dict \<Rightarrow> 'db pipeline \<Rightarrow>
   (error + dataframe dict) \<times> 'db pipeline"
where
  "ETLPipeline_transform env raw_data s =
     (let s1 = s\<lparr>trace := trace s @ [Entered Transform]\<rparr> in
      case
        try_bind
          (try_bind
            (try_bind
              (transform_dataset ''sales'' (transform_sales_data env) raw_data [] s1)
              (transform_dataset ''customers'' (transform_customer_data env) raw_data))
            (transform_dataset ''products'' (transform_product_data env) raw_data))
          (transform_dataset ''sales_reps'' (transform_sales_rep_data env) raw_data)
      of
        (Inr transformed_data, s2) \<Rightarrow>
          (Inr transformed_data,
           s2\<lparr>stats := (stats s2)\<lparr>stats_transform :=
                \<lparr>status = Success, records = total_len transformed_data,
                 names = Some (dict_keys transformed_data)\<rparr>\<rparr>\<rparr>)
      | (Inl e, s2) \<Rightarrow>
          (Inl e,
           s2\<lparr>stats := (stats s2)\<lparr>stats_transform := (stats_transform (stats s2))\<lparr>status := Failed\<rparr>\<rparr>,
              trace := trace s2 @ [Raised Transform e]\<rparr>))"

text \<open>The two loader calls of \<^verbatim>\<open>ETLPipeline._load\<close>, in the order of the source.\<close>

definition dimension_names :: "string list" where
  "dimension_names = [''customers'', ''products'', ''sales_reps'']"

definition load_dimensions ::
  "'db environment \<Rightarrow> dataframe dict \<Rightarrow> 'db pipeline \<Rightarrow> (error + int dict) \<times> 'db pipeline"
where
  "load_dimensions env dimension_data s =
     (if dimension_data \<noteq> [] then
        (case load_dimension_tables env dimension_data (db s) of
           (Inr dim_results, d) \<Rightarrow>
             (Inr (dict_update [] dim_results),
              s\<lparr>db := d,
                trace := trace s @ [LoadDimensionTables (dict_keys dimension_data) True]\<rparr>)
         | (Inl e, d) \<Rightarrow>
             (Inl e,
              s\<lparr>db := d,
                trace := trace s @ [LoadDimensionTables (dict_keys dimension_data) False]\<rparr>))
      else (Inr [], s))"

definition load_facts ::
  "'db environment \<Rightarrow> dataframe dict \<Rightarrow> int dict \<Rightarrow> 'db pipeline \<Rightarrow>
   (error + int dict) \<times> 'db pipeline"
where
  "load_facts env transformed_data load_results s =
     (case map_of transformed_data ''sales'' of
        None \<Rightarrow> (Inr load_results, s)
      | Some sales \<Rightarrow>
          (case load_fact_sales env sales (db s) of
             (Inr sales_loaded, d) \<Rightarrow>
               (Inr (dict_set load_results ''sales'' sales_loaded),
                s\<lparr>db := d, trace := trace s @ [LoadFactSales True]\<rparr>)
           | (Inl e, d) \<Rightarrow>
               (Inl e, s\<lparr>db := d, trace := trace s @ [LoadFactSales False]\<rparr>)))"

text \<open>\<^verbatim>\<open>ETLPipeline._load\<close>\<close>

definition ETLPipeline_load ::
  "'db environment \<Rightarrow> dataframe dict \<Rightarrow> 'db pipeline \<Rightarrow> (error + int dict) \<times> 'db pipeline"
where
  "ETLPipeline_load env transformed_data s =
     (let s1 = s\<lparr>trace := trace s @ [Entered Load]\<rparr>;
          dimension_data = filter (\<lambda>(k, v). k \<in> set dimension_names) transformed_data
      in
      case
        try_bind (load_dimensions env dimension_data s1) (load_facts env transformed_data)
      of
        (Inr load_results, s2) \<Rightarrow>
          (Inr load_results,
           s2\<lparr>stats := (stats s2)\<lparr>stats_load :=
                \<lparr>status = Success, records = sum_list (dict_values load_results),
                 names = Some (dict_keys load_results)\<rparr>\<rparr>\<rparr>)
      | (Inl e, s2) \<Rightarrow>
          (Inl e,
           s2\<lparr>stats := (stats s2)\<lparr>stats_load := (stats_load (stats s2))\<lparr>status := Failed\<rparr>\<rparr>,
              trace := trace s2 @ [Raised Load e]\<rparr>))"

subsection \<open>The orchestrator\<close>

definition audit_call ::
  "'db pipeline \<Rightarrow> stage \<Rightarrow> status \<Rightarrow> int option \<Rightarrow> string option \<Rightarrow> int option \<Rightarrow>
   audit_record"
where
  "audit_call s st sts n msg t =
     \<lparr>audit_pipeline = pipeline_name s, audit_stage = st, audit_status = sts,
      records_processed = n, error_message = msg, audit_start_time = t\<rparr>"

text \<open>\<^verbatim>\<open>ETLPipeline._print_summary\<close> reads the clock once and prints.\<close>

definition ETLPipeline_print_summary :: "'db environment \<Rightarrow> 'db pipeline \<Rightarrow> 'db pipeline" where
  "ETLPipeline_print_summary env s = snd (datetime_now env s)"

text \<open>The \<^verbatim>\<open>try\<close> block of \<^verbatim>\<open>ETLPipeline.run\<close>, statement by statement.\<close>

definition run_try ::
  "'db environment \<Rightarrow> string \<Rightarrow> 'db pipeline \<Rightarrow> (error + pipeline_stats) \<times> 'db pipeline"
where
  "run_try env data_path s0 =
     try_bind (audit env (audit_call s0 Extract Started None None (start_time s0)) s0)
       (\<lambda>_ s1.
     try_bind (ETLPipeline_extract data_path s1)
       (\<lambda>raw_data s2.
     try_bind
       (audit env
         (audit_call s2 Extract Success (Some (total_len raw_data)) None (start_time s2)) s2)
       (\<lambda>_ s3.
     case datetime_now env s3 of (transform_start, s4) \<Rightarrow>
     try_bind
       (audit env (audit_call s4 Transform Started None None (Some transform_start)) s4)
       (\<lambda>_ s5.
     try_bind (ETLPipeline_transform env raw_data s5)
       (\<lambda>transformed_data s6.
     try_bind
       (audit env
         (audit_call s6 Transform Success (Some (total_len transformed_data)) None
           (Some transform_start)) s6)
       (\<lambda>_ s7.
     case datetime_now env s7 of (load_start, s8) \<Rightarrow>
     try_bind (audit env (audit_call s8 Load Started None None (Some load_start)) s8)
       (\<lambda>_ s9.
     try_bind (ETLPipeline_load env transformed_data s9)
       (\<lambda>load_results s10.
     try_bind
       (audit env
         (audit_call s10 Load Success (Some (sum_list (dict_values load_results))) None
           (Some load_start)) s10)
       (\<lambda>_ s11.
     case datetime_now env s11 of (finished, s12) \<Rightarrow>
     (let s13 = ETLPipeline_print_summary env s12 in (Inr (stats s13), s13)))))))))))"

text \<open>The stage that the except clause of \<^verbatim>\<open>ETLPipeline.run\<close> blames.\<close>

definition failed_stage :: "pipeline_stats \<Rightarrow> stage" where
  "failed_stage st =
     (if status (stats_extract st) \<noteq> Success then Extract
      else if status (stats_transform st) \<noteq> Success then Transform
      else Load)"

text \<open>
  \<^verbatim>\<open>ETLPipeline.run\<close>: the clock reading, the \<^verbatim>\<open>try\<close> block, and the except clause, which
  hands a Failed record to the recorder and re-raises. When the recorder itself raises
  there, its exception is the one that leaves \<open>run\<close>.
\<close>

definition ETLPipeline_run ::
  "'db environment \<Rightarrow> string \<Rightarrow> 'db pipeline \<Rightarrow> (error + pipeline_stats) \<times> 'db pipeline"
where
  "ETLPipeline_run env data_path s =
     (case datetime_now env s of (t, s') \<Rightarrow>
      (case run_try env data_path (s'\<lparr>start_time := Some t\<rparr>) of
         (Inr result, s2) \<Rightarrow> (Inr result, s2)
       | (Inl e, s2) \<Rightarrow>
           (case
              audit env
                (audit_call s2 (failed_stage (stats s2)) Failed None (Some (message e))
                  (start_time s2)) s2
            of
              (Inl e', s3) \<Rightarrow> (Inl e', s3)
            | (Inr _, s3) \<Rightarrow> (Inl e, s3))))"

section \<open>Sample inputs\<close>

text \<open>A two-column, two-row frame, as in the repository's test of \<^verbatim>\<open>validate_data\<close>.\<close>

definition sample_frame :: dataframe where
  "sample_frame = \<lparr>columns = [''col1'', ''col2''], rows = [[''1'', ''3''], [''2'', ''4'']]\<rparr>"

text \<open>A data directory that holds the sales and the customers file only.\<close>

definition sample_fs :: filesystem where
  "sample_fs =
     \<lparr>nodes = [''data/raw'' \<mapsto> Directory
         [''sales_transactions.csv'' \<mapsto> Inr sample_frame,
          ''customers.csv'' \<mapsto> Inr sample_frame]],
      mkdir_fault = (\<lambda>p. None), stat_fault = (\<lambda>p filename. None)\<rparr>"



text \<open>
  Collaborators that all return: transformations that leave a frame as it is, loaders that
  report the number of rows they were given, a recorder that accepts every record, a clock
  that advances by ten with every reading. The database is not looked at.
\<close>

definition sample_env :: "unit environment" where
  "sample_env =
     \<lparr>clock = (\<lambda>n. 100 + 10 * int n),
      transform_sales_data = Inr,
      transform_customer_data = Inr,
      transform_product_data = Inr,
      transform_sales_rep_data = Inr,
      load_dimension_tables =
        (\<lambda>dimension_data d. (Inr (map (\<lambda>(k, df). (k, df_len df)) dimension_data), d)),
      load_fact_sales = (\<lambda>sales d. (Inr (df_len sales), d)),
      log_etl_audit = (\<lambda>r d. (None, d))\<rparr>"

text \<open>The same, with a customer transformation that raises.\<close>

definition failing_env :: "unit environment" where
  "failing_env =
     sample_env\<lparr>transform_customer_data := (\<lambda>df. Inl (Error ''ValueError'' ''bad customer''))\<rparr>"

text \<open>The same, with a recorder that raises when it is handed the Success record of Extract.\<close>

definition lossy_env :: "unit environment" where
  "lossy_env =
     sample_env\<lparr>log_etl_audit :=
       (\<lambda>r d. if audit_stage r = Extract \<and> audit_status r = Success
              then (Some (Error ''OperationalError'' ''connection lost''), d) else (None, d))\<rparr>"

definition sample_pipeline :: "filesystem \<Rightarrow> unit pipeline" where
  "sample_pipeline f = ETLPipeline ''sales_analytics_etl'' f ()"


definition failing_run :: "(error + pipeline_stats) \<times> unit pipeline" where
  "failing_run = ETLPipeline_run failing_env ''data/raw'' (sample_pipeline sample_fs)"

definition lossy_run :: "(error + pipeline_stats) \<times> unit pipeline" where
  "lossy_run = ETLPipeline_run lossy_env ''data/raw'' (sample_pipeline sample_fs)"


section \<open>Reading a run\<close>

text \<open>The stages that were entered, and the stages whose except clause ran, in order.\<close>

fun stages_entered :: "event list \<Rightarrow> stage list" where
  "stages_entered [] = []"
| "stages_entered (Entered st # evs) = st # stages_entered evs"
| "stages_entered (_ # evs) = stages_entered evs"

fun stages_raised :: "event list \<Rightarrow> (stage \<times> error) list" where
  "stages_raised [] = []"
| "stages_raised (Raised st e # evs) = (st, e) # stages_raised evs"
| "stages_raised (_ # evs) = stages_raised evs"

text \<open>\<^verbatim>\<open>self.stats[stage]['status']\<close>\<close>

definition stage_status :: "stage \<Rightarrow> pipeline_stats \<Rightarrow> status" where
  "stage_status X st =
     (case X of
        Extract \<Rightarrow> status (stats_extract st)
      | Transform \<Rightarrow> status (stats_transform st)
      | Load \<Rightarrow> status (stats_load st))"


text \<open>
  The number of clock readings between the start of \<^verbatim>\<open>run\<close> and the start of a stage:
  Extract starts with the run, \<^verbatim>\<open>transform_start\<close> is the second reading, \<^verbatim>\<open>load_start\<close>
  the third.
\<close>

definition stage_index :: "stage \<Rightarrow> nat" where
  "stage_index X = (case X of Extract \<Rightarrow> 0 | Transform \<Rightarrow> 1 | Load \<Rightarrow> 2)"


text \<open>
  One stage of the \<^verbatim>\<open>try\<close> block of \<^verbatim>\<open>run\<close>: the Started record, the stage function, the
  Success record, and then the rest of the block.
\<close>

definition phase_then ::
  "'db environment \<Rightarrow> stage \<Rightarrow> ('db pipeline \<Rightarrow> int option) \<Rightarrow>
   ('db pipeline \<Rightarrow> (error + 'a) \<times> 'db pipeline) \<Rightarrow> ('a \<Rightarrow> int) \<Rightarrow>
   ('a \<Rightarrow> 'db pipeline \<Rightarrow> (error + 'b) \<times> 'db pipeline) \<Rightarrow> 'db pipeline \<Rightarrow>
   (error + 'b) \<times> 'db pipeline"
where
  "phase_then env X t body count k s =
     try_bind (audit env (audit_call s X Started None None (t s)) s)
       (\<lambda>_ s1. try_bind (body s1)
         (\<lambda>x s2. try_bind (audit env (audit_call s2 X Success (Some (count x)) None (t s2)) s2)
           (\<lambda>_ s3. k x s3)))"

text \<open>
  What a stage function does to the pipeline object: it is entered once, it sets its own
  status to Success or to Failed, and it leaves the audit log, the clock and the other
  stages' statistics alone.
\<close>

definition stage_effect ::
  "stage \<Rightarrow> ('db pipeline \<Rightarrow> (error + 'a) \<times> 'db pipeline) \<Rightarrow> bool"
where
  "stage_effect X body =
     (\<forall>s r s'. body s = (r, s') \<longrightarrow>
        audit_log s' = audit_log s \<and> start_time s' = start_time s \<and>
        pipeline_name s' = pipeline_name s \<and> ticks s' = ticks s \<and>
        stages_entered (trace s') = stages_entered (trace s) @ [X] \<and>
        stages_raised (trace s') =
          stages_raised (trace s) @ (case r of Inl e \<Rightarrow> [(X, e)] | Inr _ \<Rightarrow> []) \<and>
        stage_status X (stats s') = (case r of Inl _ \<Rightarrow> Failed | Inr _ \<Rightarrow> Success) \<and>
        (\<forall>Y. Y \<noteq> X \<longrightarrow> stage_status Y (stats s') = stage_status Y (stats s)))"

text \<open>A step inside a stage: it may touch the database and add loader events only.\<close>

definition quiet_step :: "'db pipeline \<Rightarrow> 'db pipeline \<Rightarrow> bool" where
  "quiet_step s s' =
     (audit_log s' = audit_log s \<and> start_time s' = start_time s \<and>
      pipeline_name s' = pipeline_name s \<and> ticks s' = ticks s \<and> stats s' = stats s \<and>
      stages_entered (trace s') = stages_entered (trace s) \<and>
      stages_raised (trace s') = stages_raised (trace s))"

text \<open>
  The names of the datasets that a transformation was called on, and the names of the
  datasets that were handed to a loader, in call order.
\<close>

fun transformed_names :: "event list \<Rightarrow> string list" where
  "transformed_names [] = []"
| "transformed_names (Transformed k ok # evs) = k # transformed_names evs"
| "transformed_names (_ # evs) = transformed_names evs"

fun loaded_names :: "event list \<Rightarrow> string list" where
  "loaded_names [] = []"
| "loaded_names (LoadDimensionTables ks ok # evs) = ks @ loaded_names evs"
| "loaded_names (LoadFactSales ok # evs) = ''sales'' # loaded_names evs"
| "loaded_names (_ # evs) = loaded_names evs"


text \<open>
  The ordering rule of the Load stage, as a check on a sequence of events: whenever
  \<^verbatim>\<open>load_fact_sales\<close> is called, every one of the \<open>required\<close> dimension datasets has been
  handed to a call of \<^verbatim>\<open>load_dimension_tables\<close> that returned. \<open>loaded\<close> holds the
  dimension datasets loaded so far.
\<close>

fun dimensions_first :: "string set \<Rightarrow> string set \<Rightarrow> event list \<Rightarrow> bool" where
  "dimensions_first required loaded [] = True"
| "dimensions_first required loaded (LoadDimensionTables ks ok # evs) =
     dimensions_first required (if ok then loaded \<union> set ks else loaded) evs"
| "dimensions_first required loaded (LoadFactSales ok # evs) =
     (required \<subseteq> loaded \<and> dimensions_first required loaded evs)"
| "dimensions_first required loaded (_ # evs) = dimensions_first required loaded evs"





text \<open>
  The datasets of a mapping under the four known names, in the order in which
  \<^verbatim>\<open>_transform\<close> looks for them.
\<close>

definition present_datasets :: "dataframe dict \<Rightarrow> dataframe dict" where
  "present_datasets raw_data =
     concat (map (\<lambda>k. case map_of raw_data k of None \<Rightarrow> [] | Some df \<Rightarrow> [(k, df)])
       [''sales'', ''customers'', ''products'', ''sales_reps''])"

section \<open>The loaders of the specification\<close>

text \<open>
  Modelled from the spec: the module \<^verbatim>\<open>etl/load.py\<close> is not part of the sources, so the
  warehouse and the two loaders below follow sections 3, 4.2 and 4.3 of the specification
  and not any code. The warehouse holds the surrogate key of every (dimension name,
  natural key) it knows, the attributes stored under that key, the next surrogate key to
  assign, and the fact rows under their order numbers. The date dimension of section 4.3
  is left out.
\<close>

record warehouse =
  surrogate_keys :: "string \<times> string \<rightharpoonup> nat"
  dimension_rows :: "string \<times> string \<rightharpoonup> string list"
  next_key :: nat
  fact_rows :: "(nat list \<times> string list) dict"

text \<open>
  Modelled from the spec: section 4.2, one dimension row, whose first cell is taken to be
  the natural key. A key that is found keeps its surrogate key and has its attributes
  overwritten; a key that is not found gets a newly assigned surrogate key.
\<close>

definition upsert_dimension_row :: "string \<Rightarrow> string list \<Rightarrow> warehouse \<Rightarrow> warehouse" where
  "upsert_dimension_row dimension row w =
     (case row of
        [] \<Rightarrow> w
      | natural_key # attrs \<Rightarrow>
          (case surrogate_keys w (dimension, natural_key) of
             Some sk \<Rightarrow>
               w\<lparr>dimension_rows := (dimension_rows w)((dimension, natural_key) \<mapsto> attrs)\<rparr>
           | None \<Rightarrow>
               w\<lparr>surrogate_keys := (surrogate_keys w)((dimension, natural_key) \<mapsto> next_key w),
                 dimension_rows := (dimension_rows w)((dimension, natural_key) \<mapsto> attrs),
                 next_key := Suc (next_key w)\<rparr>))"

definition upsert_dimensions :: "dataframe dict \<Rightarrow> warehouse \<Rightarrow> warehouse" where
  "upsert_dimensions dimension_data w =
     fold (\<lambda>(dimension, df). fold (upsert_dimension_row dimension) (rows df)) dimension_data w"

text \<open>
  Modelled from the spec: the contract \<^verbatim>\<open>loadDimensions\<close> of section 4.2; the records
  written are the rows inserted or updated.
\<close>

definition spec_load_dimension_tables ::
  "dataframe dict \<Rightarrow> warehouse \<Rightarrow> (error + int dict) \<times> warehouse"
where
  "spec_load_dimension_tables dimension_data w =
     (Inr (map (\<lambda>(dimension, df). (dimension, df_len df)) dimension_data),
      upsert_dimensions dimension_data w)"

text \<open>
  Modelled from the spec: section 4.3, one fact row, taken to hold the order number, the
  customer, product and sales rep codes, and then the amounts. The row is written, under
  its order number and with surrogate keys for the codes, when all three codes resolve;
  otherwise it is skipped.
\<close>

definition resolve_fact_row ::
  "warehouse \<Rightarrow> string list \<Rightarrow> (string \<times> nat list \<times> string list) option"
where
  "resolve_fact_row w row =
     (case row of
        order_number # customer # product # rep # amounts \<Rightarrow>
          (case surrogate_keys w (''customers'', customer) of
             None \<Rightarrow> None
           | Some c \<Rightarrow>
               (case surrogate_keys w (''products'', product) of
                  None \<Rightarrow> None
                | Some p \<Rightarrow>
                    (case surrogate_keys w (''sales_reps'', rep) of
                       None \<Rightarrow> None
                     | Some r \<Rightarrow> Some (order_number, [c, p, r], amounts))))
      | _ \<Rightarrow> None)"

definition upsert_fact_row :: "string list \<Rightarrow> warehouse \<Rightarrow> warehouse" where
  "upsert_fact_row row w =
     (case resolve_fact_row w row of
        None \<Rightarrow> w
      | Some (order_number, refs, amounts) \<Rightarrow>
          w\<lparr>fact_rows := dict_set (fact_rows w) order_number (refs, amounts)\<rparr>)"

definition upsert_facts :: "dataframe \<Rightarrow> warehouse \<Rightarrow> warehouse" where
  "upsert_facts sales w = fold upsert_fact_row (rows sales) w"

text \<open>Modelled from the spec: the contract \<^verbatim>\<open>loadFacts\<close> of section 4.3.\<close>

definition spec_load_fact_sales :: "dataframe \<Rightarrow> warehouse \<Rightarrow> (error + int) \<times> warehouse" where
  "spec_load_fact_sales sales w =
     (Inr (int (length (filter (\<lambda>row. resolve_fact_row w row \<noteq> None) (rows sales)))),
      upsert_facts sales w)"

text \<open>
  Modelled from the spec: the collaborators of \<open>sample_env\<close>, with the two loaders of the
  specification in place of the loaders that count rows.
\<close>

definition spec_env :: "warehouse environment" where
  "spec_env =
     \<lparr>clock = (\<lambda>n. 100 + 10 * int n),
      transform_sales_data = Inr,
      transform_customer_data = Inr,
      transform_product_data = Inr,
      transform_sales_rep_data = Inr,
      load_dimension_tables = spec_load_dimension_tables,
      load_fact_sales = spec_load_fact_sales,
      log_etl_audit = (\<lambda>r d. (None, d))\<rparr>"

text \<open>Modelled from the spec: what the Load stage of \<open>spec_env\<close> does to the warehouse.\<close>

definition load_warehouse :: "dataframe dict \<Rightarrow> warehouse \<Rightarrow> warehouse" where
  "load_warehouse data w =
     (let w1 = upsert_dimensions (filter (\<lambda>(k, v). k \<in> set dimension_names) data) w in
      case map_of data ''sales'' of
        None \<Rightarrow> w1
      | Some sales \<Rightarrow> upsert_facts sales w1)"

text \<open>Modelled from the spec: the natural keys of the rows of the dimension datasets.\<close>

definition row_keys :: "string \<Rightarrow> string list list \<Rightarrow> (string \<times> string) set" where
  "row_keys dimension rs = {(dimension, hd row) | row. row \<in> set rs \<and> row \<noteq> []}"

definition data_keys :: "dataframe dict \<Rightarrow> (string \<times> string) set" where
  "data_keys dimension_data = (\<Union>(dimension, df) \<in> set dimension_data. row_keys dimension (rows df))"

text \<open>
  Modelled from the spec: an empty warehouse, and one customer, one product, one sales rep
  and the order ORD001 of section 8.
\<close>

definition empty_warehouse :: warehouse where
  "empty_warehouse =
     \<lparr>surrogate_keys = Map.empty, dimension_rows = Map.empty, next_key = 1, fact_rows = []\<rparr>"

definition sample_data :: "dataframe dict" where
  "sample_data =
     [(''sales'',
         \<lparr>columns = [''order_number'', ''customer_code'', ''product_code'', ''rep_code'', ''quantity''],
          rows = [[''ORD001'', ''C001'', ''P001'', ''R001'', ''2'']]\<rparr>),
      (''customers'', \<lparr>columns = [''customer_code'', ''name''], rows = [[''C001'', ''Acme'']]\<rparr>),
      (''products'', \<lparr>columns = [''product_code'', ''name''], rows = [[''P001'', ''Widget'']]\<rparr>),
      (''sales_reps'', \<lparr>columns = [''rep_code'', ''name''], rows = [[''R001'', ''Kim'']]\<rparr>)]"


text \<open>
  Modelled from the spec: a data directory that holds the four CSV files of
  \<open>sample_data\<close>, and a pipeline object on an empty warehouse.
\<close>

definition warehouse_fs :: filesystem where
  "warehouse_fs =
     \<lparr>nodes = [''data/raw'' \<mapsto> Directory
         [''sales_transactions.csv'' \<mapsto> Inr (the (map_of sample_data ''sales'')),
          ''customers.csv'' \<mapsto> Inr (the (map_of sample_data ''customers'')),
          ''products.csv'' \<mapsto> Inr (the (map_of sample_data ''products'')),
          ''sales_reps.csv'' \<mapsto> Inr (the (map_of sample_data ''sales_reps''))]],
      mkdir_fault = (\<lambda>p. None), stat_fault = (\<lambda>p filename. None)\<rparr>"

definition warehouse_pipeline :: "filesystem \<Rightarrow> warehouse \<Rightarrow> warehouse pipeline" where
  "warehouse_pipeline f w = ETLPipeline ''sales_analytics_etl'' f w"

definition first_run :: "(error + pipeline_stats) \<times> warehouse pipeline" where
  "first_run = ETLPipeline_run spec_env ''data/raw'' (warehouse_pipeline warehouse_fs empty_warehouse)"

definition second_run :: "(error + pipeline_stats) \<times> warehouse pipeline" where
  "second_run =
     ETLPipeline_run spec_env ''data/raw''
       (warehouse_pipeline (fs (snd first_run)) (db (snd first_run)))"

section \<open>Extraction\<close>

lemma dict_keys_dict_set:
  "dict_keys (dict_set d k v) = (if k \<in> set (dict_keys d) then dict_keys d else dict_keys d @ [k])"
  by (induction d) (force simp: dict_keys_def)+

lemma dict_set_keys: "set (dict_keys (dict_set d k v)) = insert k (set (dict_keys d))"
  by (auto simp: dict_keys_dict_set)









text \<open>
  C10. For a DataFrame and a list of column names, \<open>validate_data\<close> returns (it does not
  raise), it answers True exactly when the DataFrame is not empty and every required
  column is one of its columns, and it leaves the DataFrame as it was; with the columns
  omitted there is no requirement, and \<^verbatim>\<open>None\<close> in place of the DataFrame is answered
  False. The list has to be one of names: an element without a hash makes
  \<^verbatim>\<open>set(required_columns)\<close> raise, as the witness shows.
\<close>

theorem validate_data_iff:
  "validate_data None cs = (Inr False, None) \<and>
   validate_data (Some d) None = (Inr (\<not> df_empty d), Some d) \<and>
   validate_data (Some d) (Some (map PyStr wanted)) =
     (Inr (\<not> df_empty d \<and> (\<forall>c \<in> set wanted. c \<in> set (columns d))), Some d)"
proof -
  have "py_set (map PyStr wanted) = Inr wanted"
    by (induction wanted) simp_all
  then show ?thesis
    by (auto simp: validate_data_def)
qed

theorem validate_data_iff_witness:
  "validate_data (Some sample_frame) (Some [PyStr ''col1'']) = (Inr True, Some sample_frame) \<and>
   validate_data (Some sample_frame) (Some [PyStr ''col3'']) = (Inr False, Some sample_frame) \<and>
   validate_data (Some \<lparr>columns = [], rows = []\<rparr>) None =
     (Inr False, Some \<lparr>columns = [], rows = []\<rparr>) \<and>
   fst (validate_data (Some sample_frame) (Some [PyList [PyStr ''col1'']])) =
     Inl (Error ''TypeError'' (''unhashable type: '' @ repr_str ''list''))"
  using validate_data_iff [of None sample_frame "[''col1'']"]
    validate_data_iff [of None sample_frame "[''col3'']"]
    validate_data_iff [of None "\<lparr>columns = [], rows = []\<rparr>" "[]"]
  by (simp add: sample_frame_def df_empty_def) (simp add: validate_data_def df_empty_def)

section \<open>The stages and the try block\<close>

lemma stages_entered_append [simp]:
  "stages_entered (xs @ ys) = stages_entered xs @ stages_entered ys"
  by (induction xs rule: stages_entered.induct) auto

lemma stages_raised_append [simp]:
  "stages_raised (xs @ ys) = stages_raised xs @ stages_raised ys"
  by (induction xs rule: stages_raised.induct) auto

lemma run_try_phases:
  "run_try env p s0 =
     phase_then env Extract start_time (ETLPipeline_extract p) total_len
       (\<lambda>raw_data s3.
          phase_then env Transform (\<lambda>_. Some (clock env (ticks s3)))
            (ETLPipeline_transform env raw_data) total_len
            (\<lambda>transformed_data s7.
               phase_then env Load (\<lambda>_. Some (clock env (ticks s7)))
                 (ETLPipeline_load env transformed_data) (\<lambda>r. sum_list (dict_values r))
                 (\<lambda>load_results s11.
                    (Inr (stats s11), s11\<lparr>ticks := Suc (Suc (ticks s11))\<rparr>))
                 (s7\<lparr>ticks := Suc (ticks s7)\<rparr>))
            (s3\<lparr>ticks := Suc (ticks s3)\<rparr>))
       s0"
  by (simp add: run_try_def phase_then_def datetime_now_def ETLPipeline_print_summary_def
      audit_call_def Let_def)


lemma try_bindE:
  assumes "try_bind m k = (r, s')"
  obtains (raised) e where "m = (Inl e, s')" "r = Inl e"
        | (returned) x s1 where "m = (Inr x, s1)" "k x s1 = (r, s')"
  using assms by (auto simp: try_bind_def split: prod.splits sum.splits)

lemma audit_effect:
  assumes "audit env r s = (res, s')"
  shows "audit_log s' = audit_log s @ [r] \<and> trace s' = trace s \<and> stats s' = stats s \<and>
    start_time s' = start_time s \<and> pipeline_name s' = pipeline_name s \<and> ticks s' = ticks s \<and>
    fs s' = fs s \<and>
    res = (case fst (log_etl_audit env r (db s)) of None \<Rightarrow> Inr () | Some e \<Rightarrow> Inl e)"
  using assms by (auto simp: audit_def split: prod.splits option.splits)

lemma stage_effectI:
  assumes "\<And>s r s'. body s = (r, s') \<Longrightarrow>
        audit_log s' = audit_log s \<and> start_time s' = start_time s \<and>
        pipeline_name s' = pipeline_name s \<and> ticks s' = ticks s \<and>
        stages_entered (trace s') = stages_entered (trace s) @ [X] \<and>
        stages_raised (trace s') =
          stages_raised (trace s) @ (case r of Inl e \<Rightarrow> [(X, e)] | Inr _ \<Rightarrow> []) \<and>
        stage_status X (stats s') = (case r of Inl _ \<Rightarrow> Failed | Inr _ \<Rightarrow> Success) \<and>
        (\<forall>Y. Y \<noteq> X \<longrightarrow> stage_status Y (stats s') = stage_status Y (stats s))"
  shows "stage_effect X body"
  unfolding stage_effect_def using assms by blast

lemma extract_raw:
  assumes "ETLPipeline_extract p s = (res, s')"
  shows "audit_log s' = audit_log s \<and> start_time s' = start_time s \<and>
    pipeline_name s' = pipeline_name s \<and> ticks s' = ticks s \<and>
    stats_transform (stats s') = stats_transform (stats s) \<and>
    stats_load (stats s') = stats_load (stats s) \<and>
    stages_entered (trace s') = stages_entered (trace s) @ [Extract] \<and>
    stages_raised (trace s') =
       stages_raised (trace s) @ (case res of Inl e \<Rightarrow> [(Extract, e)] | Inr _ \<Rightarrow> []) \<and>
    status (stats_extract (stats s')) = (case res of Inl e \<Rightarrow> Failed | Inr _ \<Rightarrow> Success)"
  using assms
  by (auto simp: ETLPipeline_extract_def Let_def split: prod.splits sum.splits)

lemma extract_effect: "stage_effect Extract (ETLPipeline_extract p)"
proof (rule stage_effectI)
  fix s r s' assume "ETLPipeline_extract p s = (r, s')"
  from extract_raw [OF this] show "audit_log s' = audit_log s \<and> start_time s' = start_time s \<and>
        pipeline_name s' = pipeline_name s \<and> ticks s' = ticks s \<and>
        stages_entered (trace s') = stages_entered (trace s) @ [Extract] \<and>
        stages_raised (trace s') =
          stages_raised (trace s) @ (case r of Inl e \<Rightarrow> [(Extract, e)] | Inr _ \<Rightarrow> []) \<and>
        stage_status Extract (stats s') = (case r of Inl _ \<Rightarrow> Failed | Inr _ \<Rightarrow> Success) \<and>
        (\<forall>Y. Y \<noteq> Extract \<longrightarrow> stage_status Y (stats s') = stage_status Y (stats s))"
    by (simp add: stage_status_def split: stage.splits sum.splits)
qed

lemma quiet_step_trans: "quiet_step s s' \<Longrightarrow> quiet_step s' s'' \<Longrightarrow> quiet_step s s''"
  by (simp add: quiet_step_def)

lemma quiet_step_refl: "quiet_step s s"
  by (simp add: quiet_step_def)

lemma transform_dataset_quiet:
  "quiet_step s (snd (transform_dataset k f raw td s))"
  by (auto simp: transform_dataset_def quiet_step_def split: option.splits sum.splits)

lemma try_bind_quiet:
  assumes "quiet_step s (snd m)" and "\<And>x s1. quiet_step s1 (snd (k x s1))"
  shows "quiet_step s (snd (try_bind m k))"
proof (cases m)
  case (Pair r s1)
  show ?thesis
  proof (cases r)
    case (Inl e)
    with Pair assms(1) show ?thesis by (simp add: try_bind_def)
  next
    case (Inr x)
    with Pair assms(1) assms(2) [of s1 x] show ?thesis
      by (auto simp: try_bind_def intro: quiet_step_trans)
  qed
qed

lemma transform_body_quiet:
  "quiet_step s (snd (try_bind
          (try_bind
            (try_bind
              (transform_dataset k1 f1 raw td s)
              (transform_dataset k2 f2 raw))
            (transform_dataset k3 f3 raw))
          (transform_dataset k4 f4 raw)))"
  by (intro try_bind_quiet transform_dataset_quiet)

lemma transform_raw:
  assumes "ETLPipeline_transform env raw s = (res, s')"
  shows "audit_log s' = audit_log s \<and> start_time s' = start_time s \<and>
    pipeline_name s' = pipeline_name s \<and> ticks s' = ticks s \<and>
    stats_extract (stats s') = stats_extract (stats s) \<and>
    stats_load (stats s') = stats_load (stats s) \<and>
    stages_entered (trace s') = stages_entered (trace s) @ [Transform] \<and>
    stages_raised (trace s') =
       stages_raised (trace s) @ (case res of Inl e \<Rightarrow> [(Transform, e)] | Inr _ \<Rightarrow> []) \<and>
    status (stats_transform (stats s')) = (case res of Inl e \<Rightarrow> Failed | Inr _ \<Rightarrow> Success)"
proof -
  let ?s1 = "s\<lparr>trace := trace s @ [Entered Transform]\<rparr>"
  obtain r0 s2 where body: "try_bind
          (try_bind
            (try_bind
              (transform_dataset ''sales'' (transform_sales_data env) raw [] ?s1)
              (transform_dataset ''customers'' (transform_customer_data env) raw))
            (transform_dataset ''products'' (transform_product_data env) raw))
          (transform_dataset ''sales_reps'' (transform_sales_rep_data env) raw) = (r0, s2)"
    by (meson surj_pair)
  from transform_body_quiet [of ?s1] body have q: "quiet_step ?s1 s2"
    by (metis snd_conv)
  from assms body show ?thesis
    using q by (cases r0) (auto simp: ETLPipeline_transform_def Let_def quiet_step_def)
qed

lemma transform_effect: "stage_effect Transform (ETLPipeline_transform env raw)"
proof (rule stage_effectI)
  fix s r s' assume "ETLPipeline_transform env raw s = (r, s')"
  from transform_raw [OF this] show "audit_log s' = audit_log s \<and> start_time s' = start_time s \<and>
        pipeline_name s' = pipeline_name s \<and> ticks s' = ticks s \<and>
        stages_entered (trace s') = stages_entered (trace s) @ [Transform] \<and>
        stages_raised (trace s') =
          stages_raised (trace s) @ (case r of Inl e \<Rightarrow> [(Transform, e)] | Inr _ \<Rightarrow> []) \<and>
        stage_status Transform (stats s') = (case r of Inl _ \<Rightarrow> Failed | Inr _ \<Rightarrow> Success) \<and>
        (\<forall>Y. Y \<noteq> Transform \<longrightarrow> stage_status Y (stats s') = stage_status Y (stats s))"
    by (simp add: stage_status_def split: stage.splits sum.splits)
qed

lemma load_dimensions_quiet:
  "quiet_step s (snd (load_dimensions env dd s))"
  by (auto simp: load_dimensions_def quiet_step_def split: prod.splits sum.splits)

lemma load_facts_quiet:
  "quiet_step s (snd (load_facts env td lr s))"
  by (auto simp: load_facts_def quiet_step_def split: prod.splits sum.splits option.splits)

lemma load_raw:
  assumes "ETLPipeline_load env td s = (res, s')"
  shows "audit_log s' = audit_log s \<and> start_time s' = start_time s \<and>
    pipeline_name s' = pipeline_name s \<and> ticks s' = ticks s \<and>
    stats_extract (stats s') = stats_extract (stats s) \<and>
    stats_transform (stats s') = stats_transform (stats s) \<and>
    stages_entered (trace s') = stages_entered (trace s) @ [Load] \<and>
    stages_raised (trace s') =
       stages_raised (trace s) @ (case res of Inl e \<Rightarrow> [(Load, e)] | Inr _ \<Rightarrow> []) \<and>
    status (stats_load (stats s')) = (case res of Inl e \<Rightarrow> Failed | Inr _ \<Rightarrow> Success)"
proof -
  let ?s1 = "s\<lparr>trace := trace s @ [Entered Load]\<rparr>"
  let ?dd = "filter (\<lambda>(k, v). k \<in> set dimension_names) td"
  obtain r0 s2 where body:
    "try_bind (load_dimensions env ?dd ?s1) (load_facts env td) = (r0, s2)"
    by (meson surj_pair)
  have "quiet_step ?s1 (snd (try_bind (load_dimensions env ?dd ?s1) (load_facts env td)))"
    by (intro try_bind_quiet load_dimensions_quiet load_facts_quiet)
  with body have q: "quiet_step ?s1 s2" by simp
  from assms body show ?thesis
    using q by (cases r0) (auto simp: ETLPipeline_load_def Let_def quiet_step_def)
qed

lemma load_effect: "stage_effect Load (ETLPipeline_load env td)"
proof (rule stage_effectI)
  fix s r s' assume "ETLPipeline_load env td s = (r, s')"
  from load_raw [OF this] show "audit_log s' = audit_log s \<and> start_time s' = start_time s \<and>
        pipeline_name s' = pipeline_name s \<and> ticks s' = ticks s \<and>
        stages_entered (trace s') = stages_entered (trace s) @ [Load] \<and>
        stages_raised (trace s') =
          stages_raised (trace s) @ (case r of Inl e \<Rightarrow> [(Load, e)] | Inr _ \<Rightarrow> []) \<and>
        stage_status Load (stats s') = (case r of Inl _ \<Rightarrow> Failed | Inr _ \<Rightarrow> Success) \<and>
        (\<forall>Y. Y \<noteq> Load \<longrightarrow> stage_status Y (stats s') = stage_status Y (stats s))"
    by (simp add: stage_status_def split: stage.splits sum.splits)
qed


lemma phase_thenE:
  assumes run: "phase_then env X t body count k s = (r, s')"
    and body: "stage_effect X body"
    and t: "\<And>s1 s2. start_time s2 = start_time s1 \<Longrightarrow> t s2 = t s1"
  obtains
    (started_raised) e where "r = Inl e"
      "audit_log s' = audit_log s @ [audit_call s X Started None None (t s)]"
      "stages_entered (trace s') = stages_entered (trace s)"
      "stages_raised (trace s') = stages_raised (trace s)"
      "stats s' = stats s" "start_time s' = start_time s"
      "pipeline_name s' = pipeline_name s" "ticks s' = ticks s"
      "\<exists>d. fst (log_etl_audit env (audit_call s X Started None None (t s)) d) = Some e"
  | (stage_raised) e where "r = Inl e"
      "audit_log s' = audit_log s @ [audit_call s X Started None None (t s)]"
      "stages_entered (trace s') = stages_entered (trace s) @ [X]"
      "stages_raised (trace s') = stages_raised (trace s) @ [(X, e)]"
      "stage_status X (stats s') = Failed"
      "\<forall>Y. Y \<noteq> X \<longrightarrow> stage_status Y (stats s') = stage_status Y (stats s)"
      "start_time s' = start_time s" "pipeline_name s' = pipeline_name s" "ticks s' = ticks s"
  | (success_raised) e x where "r = Inl e"
      "audit_log s' = audit_log s @
         [audit_call s X Started None None (t s), audit_call s X Success (Some (count x)) None (t s)]"
      "stages_entered (trace s') = stages_entered (trace s) @ [X]"
      "stages_raised (trace s') = stages_raised (trace s)"
      "stage_status X (stats s') = Success"
      "\<forall>Y. Y \<noteq> X \<longrightarrow> stage_status Y (stats s') = stage_status Y (stats s)"
      "start_time s' = start_time s" "pipeline_name s' = pipeline_name s" "ticks s' = ticks s"
      "\<exists>d. fst (log_etl_audit env (audit_call s X Success (Some (count x)) None (t s)) d) = Some e"
  | (continue) x s3 where "k x s3 = (r, s')"
      "audit_log s3 = audit_log s @
         [audit_call s X Started None None (t s), audit_call s X Success (Some (count x)) None (t s)]"
      "stages_entered (trace s3) = stages_entered (trace s) @ [X]"
      "stages_raised (trace s3) = stages_raised (trace s)"
      "stage_status X (stats s3) = Success"
      "\<forall>Y. Y \<noteq> X \<longrightarrow> stage_status Y (stats s3) = stage_status Y (stats s)"
      "start_time s3 = start_time s" "pipeline_name s3 = pipeline_name s" "ticks s3 = ticks s"
proof -
  from run [unfolded phase_then_def] show ?thesis
  proof (cases rule: try_bindE)
    case (raised e)
    from audit_effect [OF raised(1)] raised(2) show ?thesis
      by (intro started_raised [of e]) (auto split: option.splits)
  next
    case a1: (returned u s1)
    note A1 = audit_effect [OF a1(1)]
    from a1(2) show ?thesis
    proof (cases rule: try_bindE)
      case (raised e)
      from body raised(1) have B: "audit_log s' = audit_log s1 \<and> start_time s' = start_time s1 \<and>
        pipeline_name s' = pipeline_name s1 \<and> ticks s' = ticks s1 \<and>
        stages_entered (trace s') = stages_entered (trace s1) @ [X] \<and>
        stages_raised (trace s') = stages_raised (trace s1) @ [(X, e)] \<and>
        stage_status X (stats s') = Failed \<and>
        (\<forall>Y. Y \<noteq> X \<longrightarrow> stage_status Y (stats s') = stage_status Y (stats s1))"
        unfolding stage_effect_def by fastforce
      from A1 B raised(2) show ?thesis
        by (intro stage_raised [of e]) auto
    next
      case b: (returned x s2)
      from body b(1) have B: "audit_log s2 = audit_log s1 \<and> start_time s2 = start_time s1 \<and>
        pipeline_name s2 = pipeline_name s1 \<and> ticks s2 = ticks s1 \<and>
        stages_entered (trace s2) = stages_entered (trace s1) @ [X] \<and>
        stages_raised (trace s2) = stages_raised (trace s1) \<and>
        stage_status X (stats s2) = Success \<and>
        (\<forall>Y. Y \<noteq> X \<longrightarrow> stage_status Y (stats s2) = stage_status Y (stats s1))"
        unfolding stage_effect_def by fastforce
      from A1 B have ts: "t s2 = t s" by (auto intro: t)
      from A1 B have call: "audit_call s2 X Success (Some (count x)) None (t s2) =
          audit_call s X Success (Some (count x)) None (t s)"
        by (simp add: audit_call_def ts)
      from b(2) show ?thesis
      proof (cases rule: try_bindE)
        case (raised e)
        from audit_effect [OF raised(1)] A1 B raised(2) call show ?thesis
          by (intro success_raised [of e x]) (auto split: option.splits)
      next
        case c: (returned v s3)
        from audit_effect [OF c(1)] A1 B c(2) call show ?thesis
          by (intro continue [of x s3]) auto
      qed
    qed
  qed
qed


lemmas extract_phaseE = phase_thenE [OF _ extract_effect]
lemmas transform_phaseE = phase_thenE [OF _ transform_effect]
lemmas load_phaseE = phase_thenE [OF _ load_effect]


section \<open>Runs\<close>




lemma run_try_start_times:
  assumes run: "run_try env p s = (res, s')"
    and fresh: "start_time s = Some (clock env n)" "ticks s = Suc n" "audit_log s = []"
  shows "start_time s' = Some (clock env n) \<and>
         (\<forall>r \<in> set (audit_log s'). audit_status r \<noteq> Failed \<and>
            audit_start_time r = Some (clock env (n + stage_index (audit_stage r))))"
  using run fresh
  unfolding run_try_phases
  by (elim extract_phaseE transform_phaseE load_phaseE)
     (auto simp: audit_call_def stage_index_def)

text \<open>\<open>run\<close> either leaves through \<^verbatim>\<open>return self.stats\<close> or through its except clause.\<close>

lemma run_unfold:
  assumes "ETLPipeline_run env p s = (res, s')"
  obtains (returned) st where
      "run_try env p (s\<lparr>ticks := Suc (ticks s), start_time := Some (clock env (ticks s))\<rparr>) =
         (Inr st, s')" "res = Inr st"
  | (handled) e s2 r3 where
      "run_try env p (s\<lparr>ticks := Suc (ticks s), start_time := Some (clock env (ticks s))\<rparr>) =
         (Inl e, s2)"
      "audit env (audit_call s2 (failed_stage (stats s2)) Failed None (Some (message e))
         (start_time s2)) s2 = (r3, s')"
      "res = (case r3 of Inl e' \<Rightarrow> Inl e' | Inr _ \<Rightarrow> Inl e)"
  using assms
  by (auto simp: ETLPipeline_run_def datetime_now_def split: prod.splits sum.splits)

subsection \<open>The sample runs, evaluated\<close>

lemmas run_simps =
  ETLPipeline_def ETLPipeline_run_def run_try_def datetime_now_def
  audit_def audit_call_def try_bind_def ETLPipeline_extract_def ETLPipeline_transform_def
  ETLPipeline_load_def transform_dataset_def load_dimensions_def load_facts_def
  ETLPipeline_print_summary_def failed_stage_def not_started_def
  extract_sales_data_def DataExtractor_def Path_mkdir_def Path_exists_def dataset_files_def
  extract_csv_def read_csv_def dimension_names_def dict_update_def dict_keys_def dict_values_def
  total_len_def df_len_def Let_def sample_pipeline_def sample_fs_def sample_frame_def
  sample_env_def

lemma sample_pipeline_fresh:
  "trace (sample_pipeline f) = [] \<and> audit_log (sample_pipeline f) = [] \<and>
   ticks (sample_pipeline f) = 0 \<and> pipeline_name (sample_pipeline f) = ''sales_analytics_etl''"
  by (simp add: sample_pipeline_def ETLPipeline_def)

lemma failing_env_simps:
  "clock failing_env n = 100 + 10 * int n"
  "log_etl_audit failing_env r d = (None, d)"
  "transform_customer_data failing_env df = Inl (Error ''ValueError'' ''bad customer'')"
  by (simp_all add: failing_env_def sample_env_def)

lemma sample_env_simps:
  "clock sample_env n = 100 + 10 * int n"
  "log_etl_audit sample_env r d = (None, d)"
  by (simp_all add: sample_env_def)

lemma failing_run_pair:
  "ETLPipeline_run failing_env ''data/raw'' (sample_pipeline sample_fs) =
     (fst failing_run, snd failing_run)"
  by (simp add: failing_run_def)



lemma failing_run_log:
  "audit_log (snd failing_run) =
     [\<lparr>audit_pipeline = ''sales_analytics_etl'', audit_stage = Extract, audit_status = Started,
       records_processed = None, error_message = None, audit_start_time = Some 100\<rparr>,
      \<lparr>audit_pipeline = ''sales_analytics_etl'', audit_stage = Extract, audit_status = Success,
       records_processed = Some 4, error_message = None, audit_start_time = Some 100\<rparr>,
      \<lparr>audit_pipeline = ''sales_analytics_etl'', audit_stage = Transform, audit_status = Started,
       records_processed = None, error_message = None, audit_start_time = Some 110\<rparr>,
      \<lparr>audit_pipeline = ''sales_analytics_etl'', audit_stage = Transform, audit_status = Failed,
       records_processed = None, error_message = Some ''bad customer'',
       audit_start_time = Some 100\<rparr>]"
  by (simp add: failing_run_def failing_env_def run_simps)





subsection \<open>Failure of a stage\<close>




subsection \<open>Completeness of the audit trail\<close>

lemma lossy_run_entered: "stages_entered (trace (snd lossy_run)) = [Extract]"
  by (simp add: lossy_run_def lossy_env_def run_simps)

lemma lossy_run_log:
  "map (\<lambda>r. (audit_stage r, audit_status r)) (audit_log (snd lossy_run)) =
     [(Extract, Started), (Extract, Success), (Transform, Failed)]"
  by (simp add: lossy_run_def lossy_env_def run_simps)




subsection \<open>What \<open>run\<close> returns and what it raises\<close>




subsection \<open>The start time of an audit record\<close>

text \<open>
  C8, as the code has it. In a run started on a fresh pipeline object, with \<open>n\<close> clock
  readings taken before, a Started or Success record of a stage carries the reading at
  which that stage started (reading \<open>n\<close> for Extract, \<open>n + 1\<close> for Transform,
  \<open>n + 2\<close> for Load), but a Failed record carries reading \<open>n\<close>, the start of the run,
  whatever the stage it names. So the Failed record of Transform or of Load does not
  carry the start time of the stage's Started record.
\<close>

theorem audit_start_times:
  assumes run: "ETLPipeline_run env p s = (res, s')"
    and fresh: "audit_log s = []"
  shows "\<forall>r \<in> set (audit_log s').
           audit_start_time r =
             Some (clock env (ticks s +
               (if audit_status r = Failed then 0 else stage_index (audit_stage r))))"
  using run
proof (cases rule: run_unfold)
  case (returned st)
  from run_try_start_times [OF returned(1), of "ticks s"] fresh show ?thesis by auto
next
  case (handled e2 s2 r3)
  note A = audit_effect [OF handled(2)]
  from run_try_start_times [OF handled(1), of "ticks s"] fresh
  have R: "start_time s2 = Some (clock env (ticks s))"
    "\<forall>r \<in> set (audit_log s2). audit_status r \<noteq> Failed \<and>
            audit_start_time r = Some (clock env (ticks s + stage_index (audit_stage r)))"
    by simp_all
  from A R show ?thesis by (auto simp: audit_call_def)
qed

theorem audit_start_times_witness:
  "map (\<lambda>r. (audit_stage r, audit_status r, audit_start_time r)) (audit_log (snd failing_run)) =
     [(Extract, Started, Some 100), (Extract, Success, Some 100),
      (Transform, Started, Some 110), (Transform, Failed, Some 100)]"
  using audit_start_times [OF failing_run_pair]
  by (simp add: failing_run_log sample_pipeline_fresh stage_index_def failing_env_simps)

subsection \<open>A data directory that is missing\<close>






section \<open>Datasets that are absent\<close>

lemma transformed_names_append [simp]:
  "transformed_names (xs @ ys) = transformed_names xs @ transformed_names ys"
  by (induction xs rule: transformed_names.induct) auto

lemma loaded_names_append [simp]:
  "loaded_names (xs @ ys) = loaded_names xs @ loaded_names ys"
  by (induction xs rule: loaded_names.induct) auto






lemma dimensions_first_raised:
  "dimensions_first R L evs \<Longrightarrow> dimensions_first R L (evs @ [Raised st e])"
  by (induction R L evs rule: dimensions_first.induct) auto

lemma load_order:
  assumes "ETLPipeline_load env td s = (res, s')"
  shows "\<exists>evs. trace s' = trace s @ evs \<and>
     dimensions_first (set (dict_keys td) \<inter> set dimension_names) {} evs"
proof -
  let ?s1 = "s\<lparr>trace := trace s @ [Entered Load]\<rparr>"
  let ?dd = "filter (\<lambda>(k, v). k \<in> set dimension_names) td"
  let ?R = "set (dict_keys td) \<inter> set dimension_names"
  have keys: "set (dict_keys ?dd) = ?R"
    by (auto simp: dict_keys_def)
  have empty: "?dd = [] \<Longrightarrow> ?R = {}"
    using keys by (simp add: dict_keys_def)
  obtain r1 s2 where d: "load_dimensions env ?dd ?s1 = (r1, s2)" by (meson surj_pair)
  have D: "\<exists>evs. trace s2 = trace s @ Entered Load # evs \<and>
      (case r1 of
         Inr lr \<Rightarrow> (\<forall>rest. dimensions_first ?R {} (evs @ rest) = dimensions_first ?R ?R rest)
       | Inl e \<Rightarrow> dimensions_first ?R {} evs \<and> (\<forall>b. LoadFactSales b \<notin> set evs))"
    using d keys empty
    by (auto simp: load_dimensions_def split: if_splits prod.splits sum.splits)
  then obtain evs1 where t2: "trace s2 = trace s @ Entered Load # evs1"
    and D1: "case r1 of
         Inr lr \<Rightarrow> (\<forall>rest. dimensions_first ?R {} (evs1 @ rest) = dimensions_first ?R ?R rest)
       | Inl e \<Rightarrow> dimensions_first ?R {} evs1 \<and> (\<forall>b. LoadFactSales b \<notin> set evs1)"
    by blast
  show ?thesis
  proof (cases r1)
    case (Inl e)
    with d assms have "trace s' = trace s2 @ [Raised Load e]"
      by (auto simp: ETLPipeline_load_def Let_def try_bind_def)
    with t2 have t: "trace s' = trace s @ (Entered Load # evs1 @ [Raised Load e])" by simp
    from D1 Inl have "dimensions_first ?R {} evs1" by simp
    then have "dimensions_first ?R {} (evs1 @ [Raised Load e])"
      by (rule dimensions_first_raised)
    with t show ?thesis by auto
  next
    case (Inr lr1)
    obtain r2 s3 where f: "load_facts env td lr1 s2 = (r2, s3)" by (meson surj_pair)
    have F: "\<exists>evs. trace s3 = trace s2 @ evs \<and> (\<forall>rest. dimensions_first ?R ?R (evs @ rest) =
        dimensions_first ?R ?R rest)"
      using f by (auto simp: load_facts_def split: option.splits prod.splits sum.splits)
    then obtain evs2 where t3: "trace s3 = trace s2 @ evs2"
      and F1: "\<And>rest. dimensions_first ?R ?R (evs2 @ rest) = dimensions_first ?R ?R rest"
      by blast
    from d f Inr assms obtain tl where t': "trace s' = trace s3 @ tl"
      and tl: "tl = [] \<or> (\<exists>e. tl = [Raised Load e])"
      by (cases r2) (auto simp: ETLPipeline_load_def Let_def try_bind_def)
    from D1 Inr have D2: "\<And>rest. dimensions_first ?R {} (evs1 @ rest) = dimensions_first ?R ?R rest"
      by simp
    from tl have "dimensions_first ?R ?R tl" by auto
    with F1 [of tl] D2 [of "evs2 @ tl"] have "dimensions_first ?R {} (evs1 @ evs2 @ tl)" by simp
    moreover from t2 t3 t' have "trace s' = trace s @ (Entered Load # evs1 @ evs2 @ tl)" by simp
    ultimately show ?thesis by auto
  qed
qed

subsection \<open>Dimensions before facts\<close>

text \<open>
  C4. Of the events of one call of \<^verbatim>\<open>_load\<close>, every call of \<^verbatim>\<open>load_fact_sales\<close> comes
  after a call of \<^verbatim>\<open>load_dimension_tables\<close> that returned and that was handed every
  dimension dataset (customers, products, sales_reps) present in the transformed data.
  When the dimension loader raises, the fact loader is not called at all.
\<close>

theorem load_dimensions_before_facts:
  assumes "ETLPipeline_load env transformed_data s = (res, s')"
  shows "\<exists>evs. trace s' = trace s @ evs \<and>
     dimensions_first
       (set (dict_keys transformed_data) \<inter> {''customers'', ''products'', ''sales_reps''}) {} evs"
  using load_order [OF assms] by (simp add: dimension_names_def)

theorem load_dimensions_before_facts_witness:
  "trace (snd (ETLPipeline_load sample_env
      [(''sales'', sample_frame), (''customers'', sample_frame)] (sample_pipeline sample_fs))) =
     [Entered Load, LoadDimensionTables [''customers''] True, LoadFactSales True] \<and>
   dimensions_first {''customers''} {}
     [Entered Load, LoadDimensionTables [''customers''] True, LoadFactSales True] \<and>
   \<not> dimensions_first {''customers''} {}
     [Entered Load, LoadFactSales True, LoadDimensionTables [''customers''] True]"
  using load_dimensions_before_facts [OF surjective_pairing [of "ETLPipeline_load sample_env
      [(''sales'', sample_frame), (''customers'', sample_frame)] (sample_pipeline sample_fs)"]]
  by (simp add: run_simps)

subsection \<open>Partial sources\<close>









section \<open>Loading twice\<close>

lemma upsert_dimension_row_facts [simp]:
  "fact_rows (upsert_dimension_row dim row w) = fact_rows w"
  by (simp add: upsert_dimension_row_def split: list.splits option.splits)

lemma upsert_dimension_row_keeps:
  "surrogate_keys w k = Some i \<Longrightarrow> surrogate_keys (upsert_dimension_row dim row w) k = Some i"
  by (auto simp: upsert_dimension_row_def split: list.splits option.splits)

lemma upsert_dimension_row_adds:
  "row \<noteq> [] \<Longrightarrow> (dim, hd row) \<in> dom (surrogate_keys (upsert_dimension_row dim row w))"
  by (auto simp: upsert_dimension_row_def split: list.splits option.splits)

lemma upsert_dimension_row_known:
  "(row \<noteq> [] \<longrightarrow> (dim, hd row) \<in> dom (surrogate_keys w)) \<Longrightarrow>
   surrogate_keys (upsert_dimension_row dim row w) = surrogate_keys w \<and>
   next_key (upsert_dimension_row dim row w) = next_key w"
  by (auto simp: upsert_dimension_row_def split: list.splits option.splits)

lemma fold_rows_facts [simp]:
  "fact_rows (fold (upsert_dimension_row dim) rs w) = fact_rows w"
  by (induction rs arbitrary: w) simp_all

lemma fold_rows_keeps:
  "surrogate_keys w k = Some i \<Longrightarrow>
   surrogate_keys (fold (upsert_dimension_row dim) rs w) k = Some i"
  by (induction rs arbitrary: w) (simp_all add: upsert_dimension_row_keeps)

lemma fold_rows_adds:
  "row_keys dim rs \<subseteq> dom (surrogate_keys (fold (upsert_dimension_row dim) rs w))"
proof (induction rs arbitrary: w)
  case Nil
  show ?case by (simp add: row_keys_def)
next
  case (Cons row rs)
  have "row \<noteq> [] \<Longrightarrow>
      (dim, hd row) \<in> dom (surrogate_keys (fold (upsert_dimension_row dim) rs
         (upsert_dimension_row dim row w)))"
    using upsert_dimension_row_adds [of row dim w] fold_rows_keeps by fastforce
  with Cons [of "upsert_dimension_row dim row w"] show ?case
    by (auto simp: row_keys_def)
qed

lemma fold_rows_known:
  "row_keys dim rs \<subseteq> dom (surrogate_keys w) \<Longrightarrow>
   surrogate_keys (fold (upsert_dimension_row dim) rs w) = surrogate_keys w \<and>
   next_key (fold (upsert_dimension_row dim) rs w) = next_key w"
proof (induction rs arbitrary: w)
  case Nil
  show ?case by simp
next
  case (Cons row rs)
  from Cons.prems have "row \<noteq> [] \<longrightarrow> (dim, hd row) \<in> dom (surrogate_keys w)"
    by (auto simp: row_keys_def)
  from upsert_dimension_row_known [OF this]
  have same: "surrogate_keys (upsert_dimension_row dim row w) = surrogate_keys w"
    "next_key (upsert_dimension_row dim row w) = next_key w" by simp_all
  from Cons.prems have "row_keys dim rs \<subseteq> dom (surrogate_keys (upsert_dimension_row dim row w))"
    by (auto simp: row_keys_def same)
  from Cons.IH [OF this] same show ?case by simp
qed

lemma upsert_dimensions_facts [simp]:
  "fact_rows (upsert_dimensions dd w) = fact_rows w"
  unfolding upsert_dimensions_def
  by (induction dd arbitrary: w) (simp_all add: case_prod_beta)

lemma upsert_dimensions_keeps:
  "surrogate_keys w k = Some i \<Longrightarrow> surrogate_keys (upsert_dimensions dd w) k = Some i"
  unfolding upsert_dimensions_def
  by (induction dd arbitrary: w) (simp_all add: case_prod_beta fold_rows_keeps)

lemma upsert_dimensions_adds:
  "data_keys dd \<subseteq> dom (surrogate_keys (upsert_dimensions dd w))"
proof (induction dd arbitrary: w)
  case Nil
  show ?case by (simp add: data_keys_def)
next
  case (Cons a dd)
  obtain dim df where a: "a = (dim, df)" by (cases a)
  let ?w1 = "fold (upsert_dimension_row dim) (rows df) w"
  have step: "upsert_dimensions (a # dd) w = upsert_dimensions dd ?w1"
    by (simp add: upsert_dimensions_def a)
  have "row_keys dim (rows df) \<subseteq> dom (surrogate_keys (upsert_dimensions dd ?w1))"
    using fold_rows_adds [of dim "rows df" w] upsert_dimensions_keeps [of ?w1 _ _ dd]
    by fastforce
  with Cons [of ?w1] show ?case
    by (simp add: step) (simp add: data_keys_def a)
qed

lemma upsert_dimensions_known:
  "data_keys dd \<subseteq> dom (surrogate_keys w) \<Longrightarrow>
   surrogate_keys (upsert_dimensions dd w) = surrogate_keys w \<and>
   next_key (upsert_dimensions dd w) = next_key w"
proof (induction dd arbitrary: w)
  case Nil
  show ?case by (simp add: upsert_dimensions_def)
next
  case (Cons a dd)
  obtain dim df where a: "a = (dim, df)" by (cases a)
  let ?w1 = "fold (upsert_dimension_row dim) (rows df) w"
  have step: "upsert_dimensions (a # dd) w = upsert_dimensions dd ?w1"
    by (simp add: upsert_dimensions_def a)
  from Cons.prems have "row_keys dim (rows df) \<subseteq> dom (surrogate_keys w)"
    by (simp add: data_keys_def a)
  from fold_rows_known [OF this]
  have same: "surrogate_keys ?w1 = surrogate_keys w" "next_key ?w1 = next_key w" by simp_all
  from Cons.prems have "data_keys dd \<subseteq> dom (surrogate_keys ?w1)"
    by (simp add: data_keys_def a same)
  from Cons.IH [OF this] same show ?case by (simp add: step)
qed

lemma resolve_fact_row_cong:
  "surrogate_keys w = surrogate_keys w' \<Longrightarrow> resolve_fact_row w row = resolve_fact_row w' row"
  by (auto simp: resolve_fact_row_def split: list.splits option.splits)

lemma upsert_fact_row_keys [simp]:
  "surrogate_keys (upsert_fact_row row w) = surrogate_keys w"
  "next_key (upsert_fact_row row w) = next_key w"
  by (simp_all add: upsert_fact_row_def split: option.splits)

lemma upsert_facts_keys [simp]:
  "surrogate_keys (upsert_facts sales w) = surrogate_keys w"
  "next_key (upsert_facts sales w) = next_key w"
proof -
  have "surrogate_keys (fold upsert_fact_row rs w) = surrogate_keys w \<and>
      next_key (fold upsert_fact_row rs w) = next_key w" for rs
    by (induction rs arbitrary: w) simp_all
  then show "surrogate_keys (upsert_facts sales w) = surrogate_keys w"
    "next_key (upsert_facts sales w) = next_key w"
    by (simp_all add: upsert_facts_def)
qed

text \<open>
  The order numbers under which a warehouse with the surrogate keys \<open>m\<close> writes the rows.
\<close>

lemma fold_facts_orders:
  assumes "surrogate_keys w = m"
  shows "set (dict_keys (fact_rows (fold upsert_fact_row rs w))) =
     set (dict_keys (fact_rows w)) \<union>
     {order. \<exists>row refs ms w'. row \<in> set rs \<and> surrogate_keys w' = m \<and>
        resolve_fact_row w' row = Some (order, refs, ms)}"
  using assms
proof (induction rs arbitrary: w)
  case Nil
  show ?case by simp
next
  case (Cons row rs)
  have m': "surrogate_keys (upsert_fact_row row w) = m" using Cons.prems by simp
  have here: "set (dict_keys (fact_rows (upsert_fact_row row w))) =
      set (dict_keys (fact_rows w)) \<union>
      {order. \<exists>refs ms w'. surrogate_keys w' = m \<and>
         resolve_fact_row w' row = Some (order, refs, ms)}"
  proof (cases "resolve_fact_row w row")
    case None
    with Cons.prems have "\<And>w'. surrogate_keys w' = m \<Longrightarrow> resolve_fact_row w' row = None"
      using resolve_fact_row_cong by metis
    with None show ?thesis by (auto simp: upsert_fact_row_def)
  next
    case (Some a)
    obtain order refs ms where a: "a = (order, refs, ms)" by (cases a)
    with Some Cons.prems
    have "\<And>w'. surrogate_keys w' = m \<Longrightarrow> resolve_fact_row w' row = Some (order, refs, ms)"
      using resolve_fact_row_cong by metis
    with Some a Cons.prems show ?thesis
      by (auto simp: upsert_fact_row_def dict_set_keys)
  qed
  from Cons.IH [OF m'] here show ?case by auto
qed

lemma fold_facts_known:
  assumes "\<And>row order refs ms w'. row \<in> set rs \<Longrightarrow> surrogate_keys w' = surrogate_keys w \<Longrightarrow>
      resolve_fact_row w' row = Some (order, refs, ms) \<Longrightarrow> order \<in> set (dict_keys (fact_rows w))"
  shows "dict_keys (fact_rows (fold upsert_fact_row rs w)) = dict_keys (fact_rows w)"
  using assms
proof (induction rs arbitrary: w)
  case Nil
  show ?case by simp
next
  case (Cons row rs)
  have here: "dict_keys (fact_rows (upsert_fact_row row w)) = dict_keys (fact_rows w)"
  proof (cases "resolve_fact_row w row")
    case None
    then show ?thesis by (simp add: upsert_fact_row_def)
  next
    case (Some a)
    obtain order refs ms where a: "a = (order, refs, ms)" by (cases a)
    from Cons.prems [of row w order refs ms] Some a
    have "order \<in> set (dict_keys (fact_rows w))" by simp
    with Some a show ?thesis by (simp add: upsert_fact_row_def dict_keys_dict_set)
  qed
  have "dict_keys (fact_rows (fold upsert_fact_row rs (upsert_fact_row row w))) =
      dict_keys (fact_rows (upsert_fact_row row w))"
  proof (rule Cons.IH)
    fix r order refs ms w'
    assume "r \<in> set rs" "surrogate_keys w' = surrogate_keys (upsert_fact_row row w)"
      "resolve_fact_row w' r = Some (order, refs, ms)"
    with Cons.prems [of r w' order refs ms] here
    show "order \<in> set (dict_keys (fact_rows (upsert_fact_row row w)))" by simp
  qed
  with here show ?case by simp
qed

text \<open>Loading the same data into the warehouse a second time.\<close>

lemma load_warehouse_twice:
  "surrogate_keys (load_warehouse data (load_warehouse data w)) =
     surrogate_keys (load_warehouse data w) \<and>
   next_key (load_warehouse data (load_warehouse data w)) = next_key (load_warehouse data w) \<and>
   dict_keys (fact_rows (load_warehouse data (load_warehouse data w))) =
     dict_keys (fact_rows (load_warehouse data w))"
proof -
  let ?dd = "filter (\<lambda>(k, v). k \<in> set dimension_names) data"
  let ?w1 = "load_warehouse data w"
  let ?d1 = "upsert_dimensions ?dd w"
  let ?d2 = "upsert_dimensions ?dd ?w1"
  have k1: "surrogate_keys ?w1 = surrogate_keys ?d1" "next_key ?w1 = next_key ?d1"
    by (simp_all add: load_warehouse_def Let_def split: option.splits)
  have "data_keys ?dd \<subseteq> dom (surrogate_keys ?w1)"
    using upsert_dimensions_adds [of ?dd w] by (simp add: k1)
  from upsert_dimensions_known [OF this]
  have k2: "surrogate_keys ?d2 = surrogate_keys ?w1" "next_key ?d2 = next_key ?w1" by simp_all
  have f2: "fact_rows ?d2 = fact_rows ?w1" by simp
  show ?thesis
  proof (cases "map_of data ''sales''")
    case None
    then have "load_warehouse data ?w1 = ?d2" by (simp add: load_warehouse_def)
    with k2 f2 show ?thesis by simp
  next
    case (Some sales)
    then have w1: "?w1 = fold upsert_fact_row (rows sales) ?d1"
      and w2: "load_warehouse data ?w1 = fold upsert_fact_row (rows sales) ?d2"
      by (simp_all add: load_warehouse_def upsert_facts_def)
    have orders: "set (dict_keys (fact_rows ?w1)) =
        set (dict_keys (fact_rows ?d1)) \<union>
        {order. \<exists>row refs ms w'. row \<in> set (rows sales) \<and>
           surrogate_keys w' = surrogate_keys ?d1 \<and>
           resolve_fact_row w' row = Some (order, refs, ms)}"
      using fold_facts_orders [of ?d1 "surrogate_keys ?d1" "rows sales"] w1 by simp
    have "dict_keys (fact_rows (fold upsert_fact_row (rows sales) ?d2)) =
        dict_keys (fact_rows ?d2)"
    proof (rule fold_facts_known)
      fix row order refs ms w'
      assume "row \<in> set (rows sales)" "surrogate_keys w' = surrogate_keys ?d2"
        "resolve_fact_row w' row = Some (order, refs, ms)"
      with k1 k2 have "order \<in> {order. \<exists>row refs ms w'. row \<in> set (rows sales) \<and>
           surrogate_keys w' = surrogate_keys ?d1 \<and>
           resolve_fact_row w' row = Some (order, refs, ms)}" by auto
      with orders f2 show "order \<in> set (dict_keys (fact_rows ?d2))" by simp
    qed
    with w2 f2 have "dict_keys (fact_rows (load_warehouse data ?w1)) = dict_keys (fact_rows ?w1)"
      by simp
    moreover from w2 k2 have "surrogate_keys (load_warehouse data ?w1) = surrogate_keys ?w1"
      "next_key (load_warehouse data ?w1) = next_key ?w1"
      by (simp_all add: upsert_facts_def [symmetric])
    ultimately show ?thesis by simp
  qed
qed

lemma load_spec_env:
  "db (snd (ETLPipeline_load spec_env data s)) = load_warehouse data (db s)"
proof -
  have empty: "upsert_dimensions [] (db s) = db s" by (simp add: upsert_dimensions_def)
  show ?thesis
    by (cases "map_of data ''sales''")
       (simp_all add: ETLPipeline_load_def load_dimensions_def load_facts_def try_bind_def
         spec_env_def spec_load_dimension_tables_def spec_load_fact_sales_def
         load_warehouse_def Let_def empty)
qed

subsection \<open>Running twice\<close>

lemma audit_spec_env:
  "audit spec_env r s = (res, s') \<Longrightarrow> db s' = db s \<and> fs s' = fs s \<and> res = Inr ()"
  by (auto simp: audit_def spec_env_def)

lemma extract_world:
  "ETLPipeline_extract p s = (r, s') \<Longrightarrow>
   db s' = db s \<and> fs s' = snd (extract_sales_data p (fs s)) \<and>
   fst (extract_sales_data p (fs s)) = r"
  by (auto simp: ETLPipeline_extract_def Let_def split: prod.splits sum.splits)

lemma transform_dataset_world:
  "db (snd (transform_dataset k f raw td s)) = db s \<and>
   fs (snd (transform_dataset k f raw td s)) = fs s"
  by (simp add: transform_dataset_def split: option.splits sum.splits)

lemma transform_dataset_identity:
  "fst (transform_dataset k Inr raw td s) =
     Inr (case map_of raw k of None \<Rightarrow> td | Some df \<Rightarrow> dict_set td k df)"
  by (simp add: transform_dataset_def split: option.splits)

lemma transform_world:
  assumes "ETLPipeline_transform spec_env raw s = (r, s')"
  shows "db s' = db s \<and> fs s' = fs s \<and> r = Inr (present_datasets raw)"
proof -
  let ?s1 = "s\<lparr>trace := trace s @ [Entered Transform]\<rparr>"
  obtain r1 s1 where 1: "transform_dataset ''sales'' Inr raw [] ?s1 = (r1, s1)"
    by (meson surj_pair)
  from transform_dataset_world [of "''sales''" Inr raw "[]" ?s1]
    transform_dataset_identity [of "''sales''" raw "[]" ?s1] 1
  have w1: "db s1 = db s" "fs s1 = fs s"
    and r1: "r1 = Inr (case map_of raw ''sales'' of None \<Rightarrow> [] | Some df \<Rightarrow> [(''sales'', df)])"
    by (simp_all split: option.splits)
  let ?t1 = "case map_of raw ''sales'' of None \<Rightarrow> [] | Some df \<Rightarrow> [(''sales'', df)]"
  obtain r2 s2 where 2: "transform_dataset ''customers'' Inr raw ?t1 s1 = (r2, s2)"
    by (meson surj_pair)
  let ?t2 = "?t1 @ (case map_of raw ''customers'' of None \<Rightarrow> [] | Some df \<Rightarrow> [(''customers'', df)])"
  from transform_dataset_world [of "''customers''" Inr raw ?t1 s1]
    transform_dataset_identity [of "''customers''" raw ?t1 s1] 2 w1
  have w2: "db s2 = db s" "fs s2 = fs s" and r2: "r2 = Inr ?t2"
    by (simp_all split: option.splits)
  obtain r3 s3 where 3: "transform_dataset ''products'' Inr raw ?t2 s2 = (r3, s3)"
    by (meson surj_pair)
  let ?t3 = "?t2 @ (case map_of raw ''products'' of None \<Rightarrow> [] | Some df \<Rightarrow> [(''products'', df)])"
  from transform_dataset_world [of "''products''" Inr raw ?t2 s2]
    transform_dataset_identity [of "''products''" raw ?t2 s2] 3 w2
  have w3: "db s3 = db s" "fs s3 = fs s" and r3: "r3 = Inr ?t3"
    by (simp_all split: option.splits)
  obtain r4 s4 where 4: "transform_dataset ''sales_reps'' Inr raw ?t3 s3 = (r4, s4)"
    by (meson surj_pair)
  let ?t4 = "?t3 @ (case map_of raw ''sales_reps'' of None \<Rightarrow> [] | Some df \<Rightarrow> [(''sales_reps'', df)])"
  from transform_dataset_world [of "''sales_reps''" Inr raw ?t3 s3]
    transform_dataset_identity [of "''sales_reps''" raw ?t3 s3] 4 w3
  have w4: "db s4 = db s" "fs s4 = fs s" and r4: "r4 = Inr ?t4"
    by (simp_all split: option.splits)
  have t4: "?t4 = present_datasets raw" by (simp add: present_datasets_def)
  from assms 1 2 3 4 r1 r2 r3 r4 t4 w4 show ?thesis
    by (auto simp: ETLPipeline_transform_def Let_def try_bind_def spec_env_def)
qed

lemma load_world:
  assumes "ETLPipeline_load spec_env data s = (r, s')"
  shows "db s' = load_warehouse data (db s) \<and> fs s' = fs s \<and> (\<exists>lr. r = Inr lr)"
proof -
  from assms load_spec_env [of data s] have "db s' = load_warehouse data (db s)" by simp
  moreover from assms have "fs s' = fs s \<and> (\<exists>lr. r = Inr lr)"
    by (cases "map_of data ''sales''";
        cases "filter (\<lambda>(k, v). k \<in> set dimension_names) data = []")
       (auto simp: ETLPipeline_load_def load_dimensions_def load_facts_def try_bind_def
         spec_env_def spec_load_dimension_tables_def spec_load_fact_sales_def Let_def)
  ultimately show ?thesis by simp
qed

lemma run_try_spec_env:
  assumes "run_try spec_env p s = (res, s')"
  shows "fs s' = snd (extract_sales_data p (fs s)) \<and>
     (case fst (extract_sales_data p (fs s)) of
        Inl e \<Rightarrow> db s' = db s \<and> res = Inl e
      | Inr raw \<Rightarrow> db s' = load_warehouse (present_datasets raw) (db s) \<and> (\<exists>st. res = Inr st))"
  using assms unfolding run_try_phases phase_then_def
  by (elim try_bindE)
     (auto dest!: audit_spec_env extract_world transform_world load_world)

lemma run_spec_env:
  assumes "ETLPipeline_run spec_env p s = (res, s')"
  shows "fs s' = snd (extract_sales_data p (fs s)) \<and>
     db s' = (case fst (extract_sales_data p (fs s)) of
        Inl e \<Rightarrow> db s
      | Inr raw \<Rightarrow> load_warehouse (present_datasets raw) (db s))"
  using assms
proof (cases rule: run_unfold)
  case (returned st)
  from run_try_spec_env [OF returned(1)] show ?thesis
    by (auto split: sum.splits)
next
  case (handled e s2 r3)
  from run_try_spec_env [OF handled(1)] audit_spec_env [OF handled(2)] show ?thesis
    by (auto split: sum.splits)
qed

text \<open>Extraction reads the same from the file system that an extraction has left.\<close>

lemma extract_sales_data_again:
  "fst (extract_sales_data p (snd (extract_sales_data p f))) = fst (extract_sales_data p f)"
proof -
  obtain r f1 where mk: "Path_mkdir p f = (r, f1)" by (meson surj_pair)
  show ?thesis
  proof (cases r)
    case (Inl e)
    with mk have "f1 = f" by (auto simp: Path_mkdir_def split: option.splits node.splits)
    with mk Inl show ?thesis by (simp add: extract_sales_data_def DataExtractor_def)
  next
    case (Inr u)
    with mk have "Path_mkdir p f1 = (Inr (), f1)"
      by (auto simp: Path_mkdir_def split: option.splits node.splits)
    with mk Inr show ?thesis by (simp add: extract_sales_data_def DataExtractor_def)
  qed
qed

lemma dict_set_distinct:
  "distinct (dict_keys d) \<Longrightarrow> distinct (dict_keys (dict_set d k v))"
  by (simp add: dict_keys_dict_set)

lemma upsert_facts_distinct:
  "distinct (dict_keys (fact_rows w)) \<Longrightarrow> distinct (dict_keys (fact_rows (upsert_facts sales w)))"
proof -
  have "distinct (dict_keys (fact_rows w)) \<Longrightarrow>
      distinct (dict_keys (fact_rows (fold upsert_fact_row rs w)))" for rs
  proof (induction rs arbitrary: w)
    case Nil
    then show ?case by simp
  next
    case (Cons row rs)
    from Cons.prems have "distinct (dict_keys (fact_rows (upsert_fact_row row w)))"
      by (auto simp: upsert_fact_row_def dict_set_distinct split: option.splits)
    from Cons.IH [OF this] show ?case by simp
  qed
  then show "distinct (dict_keys (fact_rows w)) \<Longrightarrow>
      distinct (dict_keys (fact_rows (upsert_facts sales w)))"
    by (simp add: upsert_facts_def)
qed

lemma load_warehouse_distinct:
  "distinct (dict_keys (fact_rows w)) \<Longrightarrow> distinct (dict_keys (fact_rows (load_warehouse data w)))"
  by (simp add: load_warehouse_def Let_def upsert_facts_distinct split: option.splits)

lemma sample_load_once:
  "dict_keys (fact_rows (load_warehouse sample_data empty_warehouse)) = [''ORD001''] \<and>
   surrogate_keys (load_warehouse sample_data empty_warehouse) (''customers'', ''C001'') = Some 1 \<and>
   surrogate_keys (load_warehouse sample_data empty_warehouse) (''products'', ''P001'') = Some 2 \<and>
   surrogate_keys (load_warehouse sample_data empty_warehouse) (''sales_reps'', ''R001'') = Some 3"
  by (simp add: load_warehouse_def sample_data_def empty_warehouse_def dimension_names_def
      upsert_dimensions_def upsert_dimension_row_def upsert_facts_def upsert_fact_row_def
      resolve_fact_row_def dict_keys_def)

lemma warehouse_fs_extraction:
  "fst (extract_sales_data ''data/raw'' warehouse_fs) = Inr sample_data"
  by (simp add: extract_sales_data_def DataExtractor_def Path_mkdir_def Path_exists_def
      warehouse_fs_def dataset_files_def extract_csv_def read_csv_def sample_data_def)

lemma present_sample_data: "present_datasets sample_data = sample_data"
  by (simp add: present_datasets_def sample_data_def)

lemma first_run_pair:
  "ETLPipeline_run spec_env ''data/raw'' (warehouse_pipeline warehouse_fs empty_warehouse) =
     (fst first_run, snd first_run)"
  by (simp add: first_run_def)

lemma second_run_pair:
  "ETLPipeline_run spec_env ''data/raw''
     (warehouse_pipeline (fs (snd first_run)) (db (snd first_run))) =
     (fst second_run, snd second_run)"
  by (simp add: second_run_def)

lemma warehouse_pipeline_world:
  "fs (warehouse_pipeline f w) = f \<and> db (warehouse_pipeline f w) = w"
  by (simp add: warehouse_pipeline_def ETLPipeline_def)

lemma first_run_db: "db (snd first_run) = load_warehouse sample_data empty_warehouse"
  using run_spec_env [OF first_run_pair]
  by (simp add: warehouse_pipeline_world warehouse_fs_extraction present_sample_data)

text \<open>
  C2, for the loaders of the specification (the loaders of the repository are not part
  of the sources). Run the pipeline on a data path, and run it again, as a new pipeline
  object, on the file system and the warehouse that the first run left. After the second
  run every surrogate key is what it was after the first, no surrogate key has been newly
  assigned, and the fact table holds the same order numbers, so the same number of fact
  rows; an order number that stood once in the fact table stands there once.
\<close>

theorem run_twice_same_keys:
  assumes first: "ETLPipeline_run spec_env p s = (r1, s1)"
    and again: "fs s1' = fs s1" "db s1' = db s1"
    and second: "ETLPipeline_run spec_env p s1' = (r2, s2)"
  shows "surrogate_keys (db s2) = surrogate_keys (db s1) \<and>
         next_key (db s2) = next_key (db s1) \<and>
         dict_keys (fact_rows (db s2)) = dict_keys (fact_rows (db s1)) \<and>
         length (fact_rows (db s2)) = length (fact_rows (db s1)) \<and>
         (distinct (dict_keys (fact_rows (db s))) \<longrightarrow> distinct (dict_keys (fact_rows (db s2))))"
proof -
  let ?x = "fst (extract_sales_data p (fs s))"
  from run_spec_env [OF first]
  have f1: "fs s1 = snd (extract_sales_data p (fs s))"
    and d1: "db s1 = (case ?x of Inl e \<Rightarrow> db s
        | Inr raw \<Rightarrow> load_warehouse (present_datasets raw) (db s))" by simp_all
  from f1 again have x2: "fst (extract_sales_data p (fs s1')) = ?x"
    by (simp add: extract_sales_data_again)
  from run_spec_env [OF second] x2 again
  have d2: "db s2 = (case ?x of Inl e \<Rightarrow> db s1
        | Inr raw \<Rightarrow> load_warehouse (present_datasets raw) (db s1))"
    by (cases ?x) simp_all
  have keys: "surrogate_keys (db s2) = surrogate_keys (db s1) \<and>
         next_key (db s2) = next_key (db s1) \<and>
         dict_keys (fact_rows (db s2)) = dict_keys (fact_rows (db s1))"
  proof (cases ?x)
    case (Inl e)
    with d1 d2 show ?thesis by simp
  next
    case (Inr raw)
    with d1 d2 load_warehouse_twice [of "present_datasets raw" "db s"] show ?thesis by simp
  qed
  then have "length (dict_keys (fact_rows (db s2))) = length (dict_keys (fact_rows (db s1)))"
    by simp
  then have len: "length (fact_rows (db s2)) = length (fact_rows (db s1))"
    by (simp add: dict_keys_def)
  have "distinct (dict_keys (fact_rows (db s))) \<Longrightarrow> distinct (dict_keys (fact_rows (db s2)))"
    using d1 d2 by (cases ?x) (simp_all add: load_warehouse_distinct)
  with keys len show ?thesis by simp
qed

theorem run_twice_same_keys_witness:
  "dict_keys (fact_rows (db (snd first_run))) = [''ORD001''] \<and>
   dict_keys (fact_rows (db (snd second_run))) = [''ORD001''] \<and>
   surrogate_keys (db (snd second_run)) (''customers'', ''C001'') = Some 1 \<and>
   next_key (db (snd second_run)) = next_key (db (snd first_run))"
  using run_twice_same_keys [OF first_run_pair _ _ second_run_pair] sample_load_once
  by (simp add: warehouse_pipeline_world first_run_db empty_warehouse_def)

end
